theory Spec2Isabelle
  imports Main "HOL-Library.Word"
begin

unbundle bit_operations_syntax

section \<open>The chunk map of snmalloc: plain and capability realizations\<close>

text \<open>
  The development embeds \<^verbatim>\<open>chunkmap_consts.h\<close>, \<^verbatim>\<open>chunkmap.h\<close> (struct
  \<^verbatim>\<open>DefaultChunkMap\<close>), the \<^verbatim>\<open>PalChunkMap\<close> of \<^verbatim>\<open>PALCHERIBSD\<close> and the pointer
  helpers of \<^verbatim>\<open>address.h\<close>. The global pagemap is passed explicitly: every operation
  that writes takes the pagemap and returns the new one. A failed \<^verbatim>\<open>assert\<close> and a
  shift by 64 or more are error values.
\<close>

subsection \<open>Machine types and configuration\<close>

type_synonym address_t = "64 word"
type_synonym size_t = "64 word"
type_synonym uint8_t = "8 word"

datatype error = AssertionFailed | ShiftOutOfRange

text \<open>
  \<^verbatim>\<open>SUPERSLAB_BITS\<close> is declared in \<^verbatim>\<open>allocconfig.h\<close>; it is the parameter \<open>sb\<close> of every
  definition below. \<^verbatim>\<open>SUPERSLAB_SIZE\<close> is \<^verbatim>\<open>1 << SUPERSLAB_BITS\<close>.
\<close>

definition SUPERSLAB_SIZE :: "nat \<Rightarrow> size_t" where
  "SUPERSLAB_SIZE sb = push_bit sb 1"

subsection \<open>\<^verbatim>\<open>enum ChunkMapSuperslabKind\<close>\<close>

datatype ChunkMapSuperslabKind = CMNotOurs | CMSuperslab | CMMediumslab

fun kind_value :: "ChunkMapSuperslabKind \<Rightarrow> nat" where
  "kind_value CMNotOurs = 0"
| "kind_value CMSuperslab = 1"
| "kind_value CMMediumslab = 2"

text \<open>
  The ranges that the comment of the enumeration reserves: values from \<^verbatim>\<open>SUPERSLAB_BITS\<close>
  (inclusive) to 64 (exclusive) for the heads of large allocations, values from 64
  (inclusive) to 128 (exclusive) for the entries within a large allocation.
\<close>

definition head_codes :: "nat \<Rightarrow> nat set" where
  "head_codes sb = {sb ..< 64}"

definition redirect_codes :: "nat set" where
  "redirect_codes = {64 ..< 128}"

text \<open>\<^verbatim>\<open>static_assert(SUPERSLAB_BITS > CMMediumslab, "Large allocations may be too small")\<close>\<close>

definition chunkmap_static_assert :: "nat \<Rightarrow> bool" where
  "chunkmap_static_assert sb \<longleftrightarrow> sb > kind_value CMMediumslab"

subsection \<open>Helpers of \<^verbatim>\<open>bits.h\<close>\<close>

text \<open>
  Modelled from the spec: \<^verbatim>\<open>bits::next_pow2_bits\<close> and \<^verbatim>\<open>bits::next_pow2\<close> (\<^verbatim>\<open>bits.h\<close> is
  not among the sources). The spec names them \<open>log2(next_pow2(S))\<close> and
  \<open>next_pow2(S)\<close>: the exponent of the least power of two that is at least \<open>S\<close>, and
  that power of two. Both return \<^verbatim>\<open>size_t\<close>, so the power is taken modulo \<open>2 ^ 64\<close>.
\<close>

function ceil_log2_from :: "nat \<Rightarrow> nat \<Rightarrow> nat" where
  "ceil_log2_from b s = (if s \<le> 2 ^ b then b else ceil_log2_from (Suc b) s)"
  by pat_completeness auto
termination
proof (relation "measure (\<lambda>(b, s). s - 2 ^ b)")
  show "wf (measure (\<lambda>(b, s). s - 2 ^ b))"
    by simp
next
  fix b s :: nat
  assume "\<not> s \<le> 2 ^ b"
  then have "s - 2 * 2 ^ b < s - 2 ^ b"
    by (simp add: diff_less_mono2)
  then show "((Suc b, s), (b, s)) \<in> measure (\<lambda>(b, s). s - 2 ^ b)"
    by simp
qed

definition next_pow2_bits :: "size_t \<Rightarrow> size_t" where
  "next_pow2_bits x = of_nat (ceil_log2_from 0 (unat x))"

definition next_pow2 :: "size_t \<Rightarrow> size_t" where
  "next_pow2 x = push_bit (ceil_log2_from 0 (unat x)) 1"

text \<open>
  Modelled from the spec: \<^verbatim>\<open>bits::align_down\<close> (\<^verbatim>\<open>bits.h\<close> is not among the sources):
  align down to a granule that is a power of two, by clearing the low bits.
\<close>

definition align_down :: "address_t \<Rightarrow> size_t \<Rightarrow> address_t" where
  "align_down v alignment = v AND NOT (alignment - 1)"

subsection \<open>The pagemap\<close>

text \<open>
  Modelled from the spec: the pagemap storage backend (\<^verbatim>\<open>pagemap.h\<close> is not among the
  sources). Its contract is \<open>get(address)\<close>, \<open>set(address, cell)\<close> and
  \<open>set_range(address, cell, count)\<close>, all addressed at granule resolution (the low
  \<^verbatim>\<open>SUPERSLAB_BITS\<close> bits of the address are ignored); \<open>set_range\<close> sets a contiguous run
  of \<open>count\<close> cells to the same value; a cell never written holds the default value.
  A pagemap is the function from cell index to cell.
\<close>

type_synonym 'c pagemap = "nat \<Rightarrow> 'c"

definition pagemap_init :: "'c \<Rightarrow> 'c pagemap" where
  "pagemap_init d = (\<lambda>j. d)"

definition pagemap_index :: "nat \<Rightarrow> address_t \<Rightarrow> nat" where
  "pagemap_index sb p = unat (drop_bit sb p)"

definition pagemap_get :: "nat \<Rightarrow> 'c pagemap \<Rightarrow> address_t \<Rightarrow> 'c" where
  "pagemap_get sb pm p = pm (pagemap_index sb p)"

definition pagemap_set :: "nat \<Rightarrow> 'c pagemap \<Rightarrow> address_t \<Rightarrow> 'c \<Rightarrow> 'c pagemap" where
  "pagemap_set sb pm p x = pm(pagemap_index sb p := x)"

definition pagemap_set_range ::
  "nat \<Rightarrow> 'c pagemap \<Rightarrow> address_t \<Rightarrow> 'c \<Rightarrow> size_t \<Rightarrow> 'c pagemap" where
  "pagemap_set_range sb pm p x len =
     (\<lambda>j. if pagemap_index sb p \<le> j \<and> j < pagemap_index sb p + unat len then x else pm j)"

subsection \<open>The redirect slide\<close>

text \<open>
  The loop of \<^verbatim>\<open>set_large_size\<close>, which \<^verbatim>\<open>DefaultChunkMap\<close> and \<^verbatim>\<open>PalChunkMap\<close> both have:
  \<^verbatim>\<open>
  for (size_t i = 0; i < size_bits - SUPERSLAB_BITS; i++)
  {
    size_t run = 1ULL << i;
    PagemapProvider::pagemap().set_range(ss, code(i), run);
    ss = ss + SUPERSLAB_SIZE * run;
  }
  \<close>
  The two realizations differ in the cell value \<open>code i\<close> only. The bound \<open>n\<close> is the
  value of \<^verbatim>\<open>size_bits - SUPERSLAB_BITS\<close>, the cursor \<open>ss\<close> is an address, and the
  result is the state at the exit of the loop: pagemap, cursor and \<open>i\<close>, which counts
  the iterations. \<^verbatim>\<open>1ULL << i\<close> is undefined for \<open>i \<ge> 64\<close>; the model stops there
  with an error.
\<close>

function redirect_slide ::
  "nat \<Rightarrow> (nat \<Rightarrow> 'c) \<Rightarrow> nat \<Rightarrow> 'c pagemap \<Rightarrow> address_t \<Rightarrow> nat
     \<Rightarrow> error + ('c pagemap \<times> address_t \<times> nat)" where
  "redirect_slide sb code n pm ss i =
     (if i < n then
        (if 64 \<le> i then Inl ShiftOutOfRange
         else
           let run = (push_bit i 1 :: size_t) in
           redirect_slide sb code n
             (pagemap_set_range sb pm ss (code i) run)
             (ss + SUPERSLAB_SIZE sb * run)
             (Suc i))
      else Inr (pm, ss, i))"
  by pat_completeness auto
termination
  by (relation "measure (\<lambda>(sb, code, n, pm, ss, i). n - i)") auto

subsection \<open>\<^verbatim>\<open>DefaultChunkMap\<close>: one classification byte per cell\<close>

text \<open>On ordinary hardware a pointer is its address.\<close>

definition DefaultChunkMap_get :: "nat \<Rightarrow> uint8_t pagemap \<Rightarrow> address_t \<Rightarrow> uint8_t" where
  "DefaultChunkMap_get sb pm p = pagemap_get sb pm p"

text \<open>\<^verbatim>\<open>getp\<close> has \<^verbatim>\<open>static_assert(offset)\<close>: only the instance with \<^verbatim>\<open>offset = true\<close> exists.\<close>

definition DefaultChunkMap_getp :: "address_t \<Rightarrow> address_t" where
  "DefaultChunkMap_getp p = p"

definition DefaultChunkMap_set ::
  "nat \<Rightarrow> uint8_t pagemap \<Rightarrow> address_t \<Rightarrow> uint8_t \<Rightarrow> uint8_t pagemap" where
  "DefaultChunkMap_set sb pm p x = pagemap_set sb pm p x"

definition DefaultChunkMap_set_slab_Superslab ::
  "nat \<Rightarrow> uint8_t pagemap \<Rightarrow> address_t \<Rightarrow> uint8_t pagemap" where
  "DefaultChunkMap_set_slab_Superslab sb pm slab =
     DefaultChunkMap_set sb pm slab (of_nat (kind_value CMSuperslab))"

definition DefaultChunkMap_set_slab_Mediumslab ::
  "nat \<Rightarrow> uint8_t pagemap \<Rightarrow> address_t \<Rightarrow> uint8_t pagemap" where
  "DefaultChunkMap_set_slab_Mediumslab sb pm slab =
     DefaultChunkMap_set sb pm slab (of_nat (kind_value CMMediumslab))"

definition DefaultChunkMap_clear_slab_Superslab ::
  "nat \<Rightarrow> uint8_t pagemap \<Rightarrow> address_t \<Rightarrow> error + uint8_t pagemap" where
  "DefaultChunkMap_clear_slab_Superslab sb pm slab =
     (if unat (DefaultChunkMap_get sb pm slab) = kind_value CMSuperslab
      then Inr (DefaultChunkMap_set sb pm slab (of_nat (kind_value CMNotOurs)))
      else Inl AssertionFailed)"

definition DefaultChunkMap_clear_slab_Mediumslab ::
  "nat \<Rightarrow> uint8_t pagemap \<Rightarrow> address_t \<Rightarrow> error + uint8_t pagemap" where
  "DefaultChunkMap_clear_slab_Mediumslab sb pm slab =
     (if unat (DefaultChunkMap_get sb pm slab) = kind_value CMMediumslab
      then Inr (DefaultChunkMap_set sb pm slab (of_nat (kind_value CMNotOurs)))
      else Inl AssertionFailed)"

text \<open>
  \<^verbatim>\<open>set_large_size\<close>: the head cell gets \<^verbatim>\<open>static_cast<uint8_t>(size_bits)\<close>, the loop
  starts at \<^verbatim>\<open>p + SUPERSLAB_SIZE\<close> and writes \<^verbatim>\<open>static_cast<uint8_t>(64 + i + SUPERSLAB_BITS)\<close>.
  The loop bound is a subtraction of \<^verbatim>\<open>size_t\<close> values and wraps around.
\<close>

definition DefaultChunkMap_redirect_code :: "nat \<Rightarrow> nat \<Rightarrow> uint8_t" where
  "DefaultChunkMap_redirect_code sb i = of_nat (64 + i + sb)"

definition DefaultChunkMap_set_large_size_loop ::
  "nat \<Rightarrow> uint8_t pagemap \<Rightarrow> address_t \<Rightarrow> size_t
     \<Rightarrow> error + (uint8_t pagemap \<times> address_t \<times> nat)" where
  "DefaultChunkMap_set_large_size_loop sb pm p sz =
     (let size_bits = next_pow2_bits sz;
          pm1 = DefaultChunkMap_set sb pm p (ucast size_bits);
          ss = p + SUPERSLAB_SIZE sb
      in redirect_slide sb (DefaultChunkMap_redirect_code sb)
           (unat (size_bits - of_nat sb)) pm1 ss 0)"

definition DefaultChunkMap_set_large_size ::
  "nat \<Rightarrow> uint8_t pagemap \<Rightarrow> address_t \<Rightarrow> size_t \<Rightarrow> error + uint8_t pagemap" where
  "DefaultChunkMap_set_large_size sb pm p sz =
     map_sum id fst (DefaultChunkMap_set_large_size_loop sb pm p sz)"

text \<open>
  \<^verbatim>\<open>clear_large_size\<close>: the assertion compares the cell, promoted from \<^verbatim>\<open>uint8_t\<close>, with
  the \<^verbatim>\<open>size_t\<close> value \<^verbatim>\<open>next_pow2_bits(size)\<close>.
\<close>

definition DefaultChunkMap_clear_large_size ::
  "nat \<Rightarrow> uint8_t pagemap \<Rightarrow> address_t \<Rightarrow> size_t \<Rightarrow> error + uint8_t pagemap" where
  "DefaultChunkMap_clear_large_size sb pm vp sz =
     (let p = vp;
          rounded_size = next_pow2 sz
      in if (ucast (DefaultChunkMap_get sb pm p) :: size_t) = next_pow2_bits sz
         then
           (let count = drop_bit sb rounded_size
            in Inr (pagemap_set_range sb pm p (of_nat (kind_value CMNotOurs)) count))
         else Inl AssertionFailed)"

subsection \<open>Pointers on capability hardware (\<^verbatim>\<open>address.h\<close>)\<close>

text \<open>
  On CHERI a pointer is a capability: bounds that address arithmetic leaves alone, and
  an address that it moves. \<^verbatim>\<open>address_cast\<close> reads the address.
\<close>

record capability =
  cap_base :: address_t
  cap_length :: size_t
  cap_cursor :: address_t

definition NULL :: capability where
  "NULL = \<lparr>cap_base = 0, cap_length = 0, cap_cursor = 0\<rparr>"

definition address_cast :: "capability \<Rightarrow> address_t" where
  "address_cast ptr = cap_cursor ptr"

definition pointer_offset :: "capability \<Rightarrow> size_t \<Rightarrow> capability" where
  "pointer_offset base diff = base\<lparr>cap_cursor := cap_cursor base + diff\<rparr>"

definition pointer_align_down :: "size_t \<Rightarrow> capability \<Rightarrow> capability" where
  "pointer_align_down granule p = p\<lparr>cap_cursor := align_down (cap_cursor p) granule\<rparr>"

text \<open>
  Modelled from the spec: \<^verbatim>\<open>pointer_diff\<close> (its definition is not among the sources):
  the distance in bytes from \<open>base\<close> to \<open>cursor\<close>, so that offsetting \<open>base\<close> by it
  gives the exact address of \<open>cursor\<close>.
\<close>

definition pointer_diff :: "capability \<Rightarrow> capability \<Rightarrow> size_t" where
  "pointer_diff base cursor = address_cast cursor - address_cast base"

subsection \<open>\<^verbatim>\<open>PALCHERIBSD::PalChunkMap\<close>: one capability per cell\<close>

definition PAGEMAP_PTR_ALIGN :: size_t where
  "PAGEMAP_PTR_ALIGN = 0x100"

text \<open>
  \<^verbatim>\<open>static_assert(static_cast<uint8_t>(static_cast<uintptr_t>(NULL)) == CMNotOurs)\<close>
\<close>

definition PalChunkMap_static_assert :: bool where
  "PalChunkMap_static_assert \<longleftrightarrow>
     unat (ucast (address_cast NULL) :: uint8_t) = kind_value CMNotOurs"

definition PalChunkMap_get :: "nat \<Rightarrow> capability pagemap \<Rightarrow> address_t \<Rightarrow> uint8_t" where
  "PalChunkMap_get sb pm p = ucast (address_cast (pagemap_get sb pm p))"

definition PalChunkMap_getp ::
  "bool \<Rightarrow> nat \<Rightarrow> capability pagemap \<Rightarrow> capability \<Rightarrow> capability" where
  "PalChunkMap_getp offset sb pm p =
     (let pmp = pointer_align_down PAGEMAP_PTR_ALIGN (pagemap_get sb pm (address_cast p))
      in if offset then pointer_offset pmp (pointer_diff pmp p) else pmp)"

definition PalChunkMap_set ::
  "nat \<Rightarrow> capability pagemap \<Rightarrow> capability \<Rightarrow> capability \<Rightarrow> capability pagemap" where
  "PalChunkMap_set sb pm p x = pagemap_set sb pm (address_cast p) x"

definition PalChunkMap_set_slab_Superslab ::
  "nat \<Rightarrow> capability pagemap \<Rightarrow> capability \<Rightarrow> error + capability pagemap" where
  "PalChunkMap_set_slab_Superslab sb pm slab =
     (if pointer_align_down (SUPERSLAB_SIZE sb) slab = slab
      then Inr (PalChunkMap_set sb pm slab
                  (pointer_offset slab (of_nat (kind_value CMSuperslab))))
      else Inl AssertionFailed)"

definition PalChunkMap_clear_slab_Superslab ::
  "nat \<Rightarrow> capability pagemap \<Rightarrow> capability \<Rightarrow> error + capability pagemap" where
  "PalChunkMap_clear_slab_Superslab sb pm slab =
     (if pointer_align_down (SUPERSLAB_SIZE sb) slab = slab
      then Inr (PalChunkMap_set sb pm slab NULL)
      else Inl AssertionFailed)"

definition PalChunkMap_set_slab_Mediumslab ::
  "nat \<Rightarrow> capability pagemap \<Rightarrow> capability \<Rightarrow> error + capability pagemap" where
  "PalChunkMap_set_slab_Mediumslab sb pm slab =
     (if pointer_align_down (SUPERSLAB_SIZE sb) slab = slab
      then Inr (PalChunkMap_set sb pm slab
                  (pointer_offset slab (of_nat (kind_value CMMediumslab))))
      else Inl AssertionFailed)"

definition PalChunkMap_clear_slab_Mediumslab ::
  "nat \<Rightarrow> capability pagemap \<Rightarrow> capability \<Rightarrow> error + capability pagemap" where
  "PalChunkMap_clear_slab_Mediumslab sb pm slab =
     (if pointer_align_down (SUPERSLAB_SIZE sb) slab = slab
      then Inr (PalChunkMap_set sb pm slab NULL)
      else Inl AssertionFailed)"

text \<open>
  \<^verbatim>\<open>set_large_size\<close>: every cell of the allocation gets the capability \<open>vp\<close> with the
  code added to its address. The cursor \<^verbatim>\<open>ss\<close> is a \<^verbatim>\<open>char*\<close> of which the loop uses the
  address only.
\<close>

definition PalChunkMap_redirect_code :: "nat \<Rightarrow> capability \<Rightarrow> nat \<Rightarrow> capability" where
  "PalChunkMap_redirect_code sb vp i = pointer_offset vp (of_nat (64 + i + sb))"

definition PalChunkMap_set_large_size_loop ::
  "nat \<Rightarrow> capability pagemap \<Rightarrow> capability \<Rightarrow> size_t
     \<Rightarrow> error + (capability pagemap \<times> address_t \<times> nat)" where
  "PalChunkMap_set_large_size_loop sb pm vp sz =
     (let size_bits = next_pow2_bits sz;
          pm1 = PalChunkMap_set sb pm vp (pointer_offset vp size_bits);
          ss = pointer_offset vp (SUPERSLAB_SIZE sb)
      in redirect_slide sb (PalChunkMap_redirect_code sb vp)
           (unat (size_bits - of_nat sb)) pm1 (address_cast ss) 0)"

definition PalChunkMap_set_large_size ::
  "nat \<Rightarrow> capability pagemap \<Rightarrow> capability \<Rightarrow> size_t \<Rightarrow> error + capability pagemap" where
  "PalChunkMap_set_large_size sb pm vp sz =
     map_sum id fst (PalChunkMap_set_large_size_loop sb pm vp sz)"

definition PalChunkMap_clear_large_size ::
  "nat \<Rightarrow> capability pagemap \<Rightarrow> capability \<Rightarrow> size_t \<Rightarrow> error + capability pagemap" where
  "PalChunkMap_clear_large_size sb pm vp sz =
     (let p = address_cast vp;
          rounded_size = next_pow2 sz
      in if (ucast (PalChunkMap_get sb pm p) :: size_t) = next_pow2_bits sz
         then
           (let count = drop_bit sb rounded_size
            in Inr (pagemap_set_range sb pm p NULL count))
         else Inl AssertionFailed)"

subsection \<open>Sequences of calls\<close>

text \<open>
  A client of the chunk map makes a sequence of calls; the same sequence can be given to
  either realization. On ordinary hardware the pointer of a call is its address. A run
  stops at the first failure.
\<close>

datatype chunk_op =
    Set_slab_Superslab capability
  | Set_slab_Mediumslab capability
  | Clear_slab_Superslab capability
  | Clear_slab_Mediumslab capability
  | Set_large_size capability size_t
  | Clear_large_size capability size_t

fun DefaultChunkMap_call :: "nat \<Rightarrow> uint8_t pagemap \<Rightarrow> chunk_op \<Rightarrow> error + uint8_t pagemap" where
  "DefaultChunkMap_call sb pm (Set_slab_Superslab c) =
     Inr (DefaultChunkMap_set_slab_Superslab sb pm (address_cast c))"
| "DefaultChunkMap_call sb pm (Set_slab_Mediumslab c) =
     Inr (DefaultChunkMap_set_slab_Mediumslab sb pm (address_cast c))"
| "DefaultChunkMap_call sb pm (Clear_slab_Superslab c) =
     DefaultChunkMap_clear_slab_Superslab sb pm (address_cast c)"
| "DefaultChunkMap_call sb pm (Clear_slab_Mediumslab c) =
     DefaultChunkMap_clear_slab_Mediumslab sb pm (address_cast c)"
| "DefaultChunkMap_call sb pm (Set_large_size c sz) =
     DefaultChunkMap_set_large_size sb pm (address_cast c) sz"
| "DefaultChunkMap_call sb pm (Clear_large_size c sz) =
     DefaultChunkMap_clear_large_size sb pm (address_cast c) sz"

fun PalChunkMap_call ::
  "nat \<Rightarrow> capability pagemap \<Rightarrow> chunk_op \<Rightarrow> error + capability pagemap" where
  "PalChunkMap_call sb pm (Set_slab_Superslab c) = PalChunkMap_set_slab_Superslab sb pm c"
| "PalChunkMap_call sb pm (Set_slab_Mediumslab c) = PalChunkMap_set_slab_Mediumslab sb pm c"
| "PalChunkMap_call sb pm (Clear_slab_Superslab c) = PalChunkMap_clear_slab_Superslab sb pm c"
| "PalChunkMap_call sb pm (Clear_slab_Mediumslab c) = PalChunkMap_clear_slab_Mediumslab sb pm c"
| "PalChunkMap_call sb pm (Set_large_size c sz) = PalChunkMap_set_large_size sb pm c sz"
| "PalChunkMap_call sb pm (Clear_large_size c sz) = PalChunkMap_clear_large_size sb pm c sz"

fun run_calls :: "('s \<Rightarrow> chunk_op \<Rightarrow> error + 's) \<Rightarrow> 's \<Rightarrow> chunk_op list \<Rightarrow> error + 's" where
  "run_calls call pm [] = Inr pm"
| "run_calls call pm (c # cs) =
     (case call pm c of Inl e \<Rightarrow> Inl e | Inr pm' \<Rightarrow> run_calls call pm' cs)"

fun op_pointer :: "chunk_op \<Rightarrow> capability" where
  "op_pointer (Set_slab_Superslab c) = c"
| "op_pointer (Set_slab_Mediumslab c) = c"
| "op_pointer (Clear_slab_Superslab c) = c"
| "op_pointer (Clear_slab_Mediumslab c) = c"
| "op_pointer (Set_large_size c sz) = c"
| "op_pointer (Clear_large_size c sz) = c"

subsection \<open>Relating the two realizations\<close>

text \<open>
  The classification code that a cell of the capability realization stands for: what
  \<^verbatim>\<open>PalChunkMap::get\<close> computes from the stored capability, the low 8 bits of its address.
\<close>

definition cell_code :: "capability \<Rightarrow> uint8_t" where
  "cell_code x = ucast (address_cast x)"

section \<open>Auxiliary facts\<close>

subsection \<open>The exponent of the next power of two\<close>

declare ceil_log2_from.simps [simp del]
declare redirect_slide.simps [simp del]

lemma ceil_log2_from_ge: "b \<le> ceil_log2_from b s"
proof (induction b s rule: ceil_log2_from.induct)
  case (1 b s)
  show ?case
  proof (cases "s \<le> 2 ^ b")
    case True
    then show ?thesis by (simp add: ceil_log2_from.simps [of b s])
  next
    case False
    with 1 show ?thesis by (simp add: ceil_log2_from.simps [of b s])
  qed
qed

lemma ceil_log2_from_upper: "s \<le> 2 ^ ceil_log2_from b s"
proof (induction b s rule: ceil_log2_from.induct)
  case (1 b s)
  show ?case
  proof (cases "s \<le> 2 ^ b")
    case True
    then show ?thesis by (simp add: ceil_log2_from.simps [of b s])
  next
    case False
    with 1 show ?thesis by (simp add: ceil_log2_from.simps [of b s])
  qed
qed

lemma ceil_log2_from_lower:
  "b < ceil_log2_from b s \<Longrightarrow> 2 ^ (ceil_log2_from b s - 1) < s"
proof (induction b s rule: ceil_log2_from.induct)
  case (1 b s)
  show ?case
  proof (cases "s \<le> 2 ^ b")
    case True
    with 1(2) show ?thesis by (simp add: ceil_log2_from.simps [of b s])
  next
    case False
    note nle = this
    have eq: "ceil_log2_from b s = ceil_log2_from (Suc b) s"
      using nle by (simp add: ceil_log2_from.simps [of b s])
    show ?thesis
    proof (cases "Suc b < ceil_log2_from (Suc b) s")
      case True
      with 1(1) nle eq show ?thesis by simp
    next
      case False
      with ceil_log2_from_ge [of "Suc b" s] have "ceil_log2_from (Suc b) s = Suc b" by simp
      with eq nle show ?thesis by simp
    qed
  qed
qed

lemma ceil_log2_from_unique:
  assumes "s \<le> 2 ^ k" and "k = 0 \<or> 2 ^ (k - 1) < s"
  shows "ceil_log2_from 0 s = k"
proof -
  let ?c = "ceil_log2_from 0 s"
  have u: "s \<le> 2 ^ ?c" by (rule ceil_log2_from_upper)
  have "\<not> ?c < k"
  proof
    assume lt: "?c < k"
    then have "?c \<le> k - 1" by simp
    then have "(2::nat) ^ ?c \<le> 2 ^ (k - 1)" by (rule power_increasing) simp
    with u assms(2) lt show False by linarith
  qed
  moreover have "\<not> k < ?c"
  proof
    assume lt: "k < ?c"
    then have "0 < ?c" by simp
    then have l: "2 ^ (?c - 1) < s" by (rule ceil_log2_from_lower)
    from lt have "k \<le> ?c - 1" by simp
    then have "(2::nat) ^ k \<le> 2 ^ (?c - 1)" by (rule power_increasing) simp
    with l assms(1) show False by linarith
  qed
  ultimately show ?thesis by simp
qed

lemma ceil_log2_from_le_64: "s \<le> 2 ^ 64 \<Longrightarrow> ceil_log2_from 0 s \<le> 64"
proof (rule ccontr)
  assume s: "s \<le> 2 ^ 64" and "\<not> ceil_log2_from 0 s \<le> 64"
  then have lt: "64 < ceil_log2_from 0 s" by simp
  then have "0 < ceil_log2_from 0 s" by simp
  then have l: "2 ^ (ceil_log2_from 0 s - 1) < s" by (rule ceil_log2_from_lower)
  from lt have "64 \<le> ceil_log2_from 0 s - 1" by simp
  then have "(2::nat) ^ 64 \<le> 2 ^ (ceil_log2_from 0 s - 1)" by (rule power_increasing) simp
  with l s show False by linarith
qed

subsection \<open>Addresses and cell indices\<close>

lemma SUPERSLAB_SIZE_times:
  "SUPERSLAB_SIZE sb * of_nat k = (of_nat (2 ^ sb * k) :: size_t)"
  by (simp add: SUPERSLAB_SIZE_def)

lemma unat_plus_of_nat:
  fixes p :: address_t
  assumes "unat p + m < 2 ^ 64"
  shows "unat (p + of_nat m) = unat p + m"
proof -
  have "unat (p + of_nat m) = (unat p + m mod 2 ^ 64) mod 2 ^ 64"
    by (simp only: unat_word_ariths(1) unat_of_nat) simp
  also have "\<dots> = (unat p + m) mod 2 ^ 64"
    by (simp only: mod_add_right_eq)
  also have "\<dots> = unat p + m"
    using assms by simp
  finally show ?thesis .
qed

lemma pagemap_index_offset:
  fixes p :: address_t
  assumes "unat p + 2 ^ sb * k < 2 ^ 64"
  shows "pagemap_index sb (p + SUPERSLAB_SIZE sb * of_nat k) = pagemap_index sb p + k"
proof -
  have "unat (p + SUPERSLAB_SIZE sb * of_nat k) = unat p + 2 ^ sb * k"
    unfolding SUPERSLAB_SIZE_times using assms by (rule unat_plus_of_nat)
  moreover have "(unat p + 2 ^ sb * k) div 2 ^ sb = unat p div 2 ^ sb + k"
    by simp
  ultimately show ?thesis
    by (simp only: pagemap_index_def unat_drop_bit_eq drop_bit_nat_def)
qed

lemma unat_run:
  assumes "i < 64"
  shows "unat (push_bit i 1 :: size_t) = 2 ^ i"
proof -
  have lt: "(2::nat) ^ i < 2 ^ 64"
    using assms by (rule power_strict_increasing) simp
  have "(push_bit i 1 :: size_t) = of_nat (2 ^ i)"
    by (simp only: push_bit_of_1 of_nat_power of_nat_numeral)
  then have "unat (push_bit i 1 :: size_t) = 2 ^ i mod 2 ^ LENGTH(64)"
    by (simp only: unat_of_nat)
  also have "\<dots> = 2 ^ i"
    using lt by simp
  finally show ?thesis .
qed

subsection \<open>The loop of the redirect slide\<close>

lemma redirect_slide_step:
  "i < n \<Longrightarrow> i < 64 \<Longrightarrow>
   redirect_slide sb code n pm ss i =
     redirect_slide sb code n (pagemap_set_range sb pm ss (code i) (push_bit i 1))
       (ss + SUPERSLAB_SIZE sb * push_bit i 1) (Suc i)"
  by (subst redirect_slide.simps) (simp add: Let_def)

lemma redirect_slide_exit:
  "\<not> i < n \<Longrightarrow> redirect_slide sb code n pm ss i = Inr (pm, ss, i)"
  by (subst redirect_slide.simps) simp

lemma redirect_slide_shift:
  "i < n \<Longrightarrow> 64 \<le> i \<Longrightarrow> redirect_slide sb code n pm ss i = Inl ShiftOutOfRange"
  by (subst redirect_slide.simps) simp

lemma cursor_advance:
  "(p + SUPERSLAB_SIZE sb * of_nat (2 ^ i)) + SUPERSLAB_SIZE sb * push_bit i 1
     = (p + SUPERSLAB_SIZE sb * of_nat (2 ^ Suc i) :: address_t)"
  by (simp add: algebra_simps)

lemma redirect_slide_cells:
  fixes p :: address_t
  assumes "n \<le> 64" and "unat p + 2 ^ sb * 2 ^ n \<le> 2 ^ 64" and "i \<le> n"
  shows "\<exists>pm'. redirect_slide sb code n pm (p + SUPERSLAB_SIZE sb * of_nat (2 ^ i)) i
            = Inr (pm', p + SUPERSLAB_SIZE sb * of_nat (2 ^ n), n)
          \<and> (\<forall>i' k. i \<le> i' \<and> i' < n \<and> 2 ^ i' \<le> k \<and> k < 2 ^ Suc i'
                \<longrightarrow> pm' (pagemap_index sb p + k) = code i')
          \<and> (\<forall>j. j < pagemap_index sb p + 2 ^ i \<or> pagemap_index sb p + 2 ^ n \<le> j
                \<longrightarrow> pm' j = pm j)"
  using assms(3)
proof (induction "n - i" arbitrary: i pm)
  case 0
  then have "i = n" by simp
  then show ?case by (auto simp: redirect_slide_exit)
next
  case (Suc d)
  then have lt: "i < n" and d: "d = n - Suc i" and le: "Suc i \<le> n" by simp_all
  from lt assms(1) have i64: "i < 64" by simp
  let ?ss = "p + SUPERSLAB_SIZE sb * of_nat (2 ^ i)"
  let ?pm1 = "pagemap_set_range sb pm ?ss (code i) (push_bit i 1)"
  from Suc.hyps(1) [OF d le, of ?pm1] obtain pm' where
    run: "redirect_slide sb code n ?pm1 (p + SUPERSLAB_SIZE sb * of_nat (2 ^ Suc i)) (Suc i)
            = Inr (pm', p + SUPERSLAB_SIZE sb * of_nat (2 ^ n), n)"
    and inner: "\<And>i' k. Suc i \<le> i' \<Longrightarrow> i' < n \<Longrightarrow> 2 ^ i' \<le> k \<Longrightarrow> k < 2 ^ Suc i'
                  \<Longrightarrow> pm' (pagemap_index sb p + k) = code i'"
    and outer: "\<And>j. j < pagemap_index sb p + 2 ^ Suc i \<or> pagemap_index sb p + 2 ^ n \<le> j
                  \<Longrightarrow> pm' j = ?pm1 j"
    by blast
  have "(2::nat) ^ Suc i \<le> 2 ^ n"
    using le by (rule power_increasing) simp
  then have pow: "(2::nat) * 2 ^ i \<le> 2 ^ n" by simp
  then have "2 ^ sb * (2 * 2 ^ i) \<le> (2::nat) ^ sb * 2 ^ n"
    by (rule mult_le_mono2)
  then have "2 * (2 ^ sb * 2 ^ i) \<le> (2::nat) ^ sb * 2 ^ n"
    by (simp only: mult.left_commute)
  moreover have "0 < (2::nat) ^ sb * 2 ^ i"
    by simp
  ultimately have "unat p + 2 ^ sb * 2 ^ i < 2 ^ 64"
    using assms(2) by linarith
  then have idx: "pagemap_index sb ?ss = pagemap_index sb p + 2 ^ i"
    by (rule pagemap_index_offset)
  have pm1: "?pm1 j = (if pagemap_index sb p + 2 ^ i \<le> j \<and> j < pagemap_index sb p + 2 ^ Suc i
                       then code i else pm j)" for j
    unfolding pagemap_set_range_def idx unat_run [OF i64] by simp
  have res: "redirect_slide sb code n pm ?ss i
               = Inr (pm', p + SUPERSLAB_SIZE sb * of_nat (2 ^ n), n)"
    by (simp only: redirect_slide_step [OF lt i64] cursor_advance run)
  have a: "pm' (pagemap_index sb p + k) = code i'"
    if "i \<le> i'" "i' < n" "2 ^ i' \<le> k" "k < 2 ^ Suc i'" for i' k
  proof (cases "i' = i")
    case True
    with that outer [of "pagemap_index sb p + k"] pm1 [of "pagemap_index sb p + k"]
    show ?thesis by simp
  next
    case False
    with that have "Suc i \<le> i'" by simp
    with that show ?thesis by (simp add: inner)
  qed
  have b: "pm' j = pm j"
    if "j < pagemap_index sb p + 2 ^ i \<or> pagemap_index sb p + 2 ^ n \<le> j" for j
  proof -
    from that pow have "j < pagemap_index sb p + 2 ^ Suc i \<or> pagemap_index sb p + 2 ^ n \<le> j"
      by auto
    then have "pm' j = ?pm1 j" by (rule outer)
    also from that pow have "\<dots> = pm j" unfolding pm1 by auto
    finally show ?thesis .
  qed
  from res a b show ?case by blast
qed

lemma unat_next_pow2_bits: "unat (next_pow2_bits S) = ceil_log2_from 0 (unat S)"
proof -
  have "unat S \<le> 2 ^ 64"
    using unsigned_less [of S, where 'a = nat] by simp
  then have "ceil_log2_from 0 (unat S) \<le> 64"
    by (rule ceil_log2_from_le_64)
  then have "ceil_log2_from 0 (unat S) < 2 ^ 64"
    by simp
  then show ?thesis
    by (simp add: next_pow2_bits_def unat_of_nat)
qed

lemma next_pow2_bits_le_64: "unat (next_pow2_bits S) \<le> 64"
proof -
  have "unat S \<le> 2 ^ 64"
    using unsigned_less [of S, where 'a = nat] by simp
  then show ?thesis
    unfolding unat_next_pow2_bits by (rule ceil_log2_from_le_64)
qed

lemma slide_bound:
  assumes "sb \<le> unat (next_pow2_bits S)"
  shows "unat (next_pow2_bits S - of_nat sb) = unat (next_pow2_bits S) - sb"
proof -
  from assms next_pow2_bits_le_64 [of S] have "sb < 2 ^ 64" by simp
  then have sb: "unat (of_nat sb :: size_t) = sb"
    by (simp add: unat_of_nat)
  with assms have "(of_nat sb :: size_t) \<le> next_pow2_bits S"
    by (simp add: word_le_nat_alt)
  then show ?thesis
    by (simp add: unat_sub sb)
qed

lemma head_code: "(ucast (next_pow2_bits S) :: uint8_t) = of_nat (unat (next_pow2_bits S))"
  by simp

lemma set_large_size_loop_result:
  assumes "sb \<le> unat (next_pow2_bits S)"
    and "unat p + 2 ^ unat (next_pow2_bits S) \<le> 2 ^ 64"
  shows "\<exists>pm'. DefaultChunkMap_set_large_size_loop sb pm p S
            = Inr (pm', p + SUPERSLAB_SIZE sb * of_nat (2 ^ (unat (next_pow2_bits S) - sb)),
                   unat (next_pow2_bits S) - sb)
          \<and> pm' (pagemap_index sb p) = of_nat (unat (next_pow2_bits S))
          \<and> (\<forall>i k. i < unat (next_pow2_bits S) - sb \<and> 2 ^ i \<le> k \<and> k < 2 ^ Suc i
                \<longrightarrow> pm' (pagemap_index sb p + k) = DefaultChunkMap_redirect_code sb i)
          \<and> (\<forall>j. j < pagemap_index sb p \<or>
                   pagemap_index sb p + 2 ^ (unat (next_pow2_bits S) - sb) \<le> j
                \<longrightarrow> pm' j = pm j)"
proof -
  let ?b = "unat (next_pow2_bits S)"
  let ?n = "?b - sb"
  let ?pm1 = "DefaultChunkMap_set sb pm p (ucast (next_pow2_bits S))"
  have n64: "?n \<le> 64"
    using next_pow2_bits_le_64 [of S] by simp
  have "(2::nat) ^ sb * 2 ^ ?n = 2 ^ ?b"
    using assms(1) by (simp flip: power_add)
  with assms(2) have fit: "unat p + 2 ^ sb * 2 ^ ?n \<le> 2 ^ 64"
    by simp
  from redirect_slide_cells [OF n64 fit, of 0 "DefaultChunkMap_redirect_code sb" ?pm1]
  obtain pm' where
    run: "redirect_slide sb (DefaultChunkMap_redirect_code sb) ?n ?pm1
            (p + SUPERSLAB_SIZE sb * of_nat (2 ^ 0)) 0
            = Inr (pm', p + SUPERSLAB_SIZE sb * of_nat (2 ^ ?n), ?n)"
    and inner: "\<And>i k. i < ?n \<Longrightarrow> 2 ^ i \<le> k \<Longrightarrow> k < 2 ^ Suc i
                  \<Longrightarrow> pm' (pagemap_index sb p + k) = DefaultChunkMap_redirect_code sb i"
    and outer: "\<And>j. j < pagemap_index sb p + 2 ^ 0 \<or> pagemap_index sb p + 2 ^ ?n \<le> j
                  \<Longrightarrow> pm' j = ?pm1 j"
    by auto
  have res: "DefaultChunkMap_set_large_size_loop sb pm p S
               = Inr (pm', p + SUPERSLAB_SIZE sb * of_nat (2 ^ ?n), ?n)"
    using run by (simp add: DefaultChunkMap_set_large_size_loop_def Let_def
        slide_bound [OF assms(1)])
  have hd: "pm' (pagemap_index sb p) = of_nat ?b"
    using outer [of "pagemap_index sb p"]
    by (simp add: DefaultChunkMap_set_def pagemap_set_def)
  have rest: "pm' j = pm j"
    if "j < pagemap_index sb p \<or> pagemap_index sb p + 2 ^ ?n \<le> j" for j
  proof -
    from that have "j \<noteq> pagemap_index sb p" by auto
    moreover from that have "pm' j = ?pm1 j"
      by (intro outer) auto
    ultimately show ?thesis
      by (simp add: DefaultChunkMap_set_def pagemap_set_def)
  qed
  from res hd inner rest show ?thesis by blast
qed

lemma DefaultChunkMap_get_set:
  "DefaultChunkMap_get sb (DefaultChunkMap_set sb pm a x) q =
     (if pagemap_index sb q = pagemap_index sb a then x else DefaultChunkMap_get sb pm q)"
  by (simp add: DefaultChunkMap_get_def DefaultChunkMap_set_def pagemap_get_def pagemap_set_def)

subsection \<open>The cells of the concrete scenario\<close>

lemma scenario_index_head: "pagemap_index 21 0x1000000 = 8"
  by (simp add: pagemap_index_def drop_bit_eq_div)

lemma scenario_index_1: "pagemap_index 21 0x1200000 = 9"
  by (simp add: pagemap_index_def drop_bit_eq_div)

lemma ceil_log2_from_le: "s \<le> 2 ^ k \<Longrightarrow> ceil_log2_from 0 s \<le> k"
proof (rule ccontr)
  assume s: "s \<le> 2 ^ k" and "\<not> ceil_log2_from 0 s \<le> k"
  then have lt: "k < ceil_log2_from 0 s" by simp
  then have "0 < ceil_log2_from 0 s" by simp
  then have l: "2 ^ (ceil_log2_from 0 s - 1) < s" by (rule ceil_log2_from_lower)
  from lt have "k \<le> ceil_log2_from 0 s - 1" by simp
  then have "(2::nat) ^ k \<le> 2 ^ (ceil_log2_from 0 s - 1)" by (rule power_increasing) simp
  with l s show False by linarith
qed

lemma set_large_size_result:
  assumes "sb \<le> unat (next_pow2_bits S)"
    and "unat p + 2 ^ unat (next_pow2_bits S) \<le> 2 ^ 64"
  shows "\<exists>pm'. DefaultChunkMap_set_large_size sb pm p S = Inr pm'
          \<and> pm' (pagemap_index sb p) = of_nat (unat (next_pow2_bits S))
          \<and> (\<forall>i k. i < unat (next_pow2_bits S) - sb \<and> 2 ^ i \<le> k \<and> k < 2 ^ Suc i
                \<longrightarrow> pm' (pagemap_index sb p + k) = DefaultChunkMap_redirect_code sb i)
          \<and> (\<forall>j. j < pagemap_index sb p \<or>
                   pagemap_index sb p + 2 ^ (unat (next_pow2_bits S) - sb) \<le> j
                \<longrightarrow> pm' j = pm j)"
proof -
  from set_large_size_loop_result [OF assms, of pm] obtain pm' where
    "DefaultChunkMap_set_large_size_loop sb pm p S
       = Inr (pm', p + SUPERSLAB_SIZE sb * of_nat (2 ^ (unat (next_pow2_bits S) - sb)),
              unat (next_pow2_bits S) - sb)"
    and rest: "pm' (pagemap_index sb p) = of_nat (unat (next_pow2_bits S))
      \<and> (\<forall>i k. i < unat (next_pow2_bits S) - sb \<and> 2 ^ i \<le> k \<and> k < 2 ^ Suc i
            \<longrightarrow> pm' (pagemap_index sb p + k) = DefaultChunkMap_redirect_code sb i)
      \<and> (\<forall>j. j < pagemap_index sb p \<or>
               pagemap_index sb p + 2 ^ (unat (next_pow2_bits S) - sb) \<le> j
            \<longrightarrow> pm' j = pm j)"
    by blast
  then have "DefaultChunkMap_set_large_size sb pm p S = Inr pm'"
    by (simp add: DefaultChunkMap_set_large_size_def)
  with rest show ?thesis by blast
qed

lemma unat_redirect_code:
  "i + sb < 64 \<Longrightarrow> unat (DefaultChunkMap_redirect_code sb i) = 64 + i + sb"
proof -
  assume "i + sb < 64"
  then have "64 + i + sb < 2 ^ LENGTH(8)" by simp
  then show ?thesis
    by (simp only: DefaultChunkMap_redirect_code_def unat_of_nat mod_less)
qed

lemma div_pow2:
  assumes "0 < (2::nat) ^ b div 2 ^ sb"
  shows "sb \<le> b" and "(2::nat) ^ b div 2 ^ sb = 2 ^ (b - sb)"
proof -
  show "sb \<le> b"
  proof (rule ccontr)
    assume "\<not> sb \<le> b"
    then have "(2::nat) ^ b < 2 ^ sb" by simp
    then have "(2::nat) ^ b div 2 ^ sb = 0" by simp
    with assms show False by simp
  qed
  then show "(2::nat) ^ b div 2 ^ sb = 2 ^ (b - sb)"
    by (simp add: power_diff)
qed

lemma body_cell:
  assumes fit: "unat p + 2 ^ unat (next_pow2_bits S) \<le> 2 ^ 64"
    and k1: "1 \<le> k" and k2: "k < 2 ^ (unat (next_pow2_bits S) - sb)"
    and sb: "sb \<le> unat (next_pow2_bits S)"
  shows "\<exists>pm' i. DefaultChunkMap_set_large_size sb pm p S = Inr pm'
           \<and> i < unat (next_pow2_bits S) - sb \<and> 2 ^ i \<le> k \<and> k < 2 ^ Suc i
           \<and> unat (DefaultChunkMap_get sb pm' (p + SUPERSLAB_SIZE sb * of_nat k)) = 64 + i + sb"
proof -
  let ?b = "unat (next_pow2_bits S)"
  from set_large_size_result [OF sb fit, of pm] obtain pm' where
    res: "DefaultChunkMap_set_large_size sb pm p S = Inr pm'"
    and inner: "\<And>i k. i < ?b - sb \<Longrightarrow> 2 ^ i \<le> k \<Longrightarrow> k < 2 ^ Suc i
                  \<Longrightarrow> pm' (pagemap_index sb p + k) = DefaultChunkMap_redirect_code sb i"
    by blast
  from ex_power_ivl1 [of 2 k] k1 obtain i where i: "2 ^ i \<le> k" "k < 2 ^ Suc i"
    by auto
  from i(1) k2 have "(2::nat) ^ i < 2 ^ (?b - sb)" by (rule le_less_trans)
  then have ilt: "i < ?b - sb" by simp
  with next_pow2_bits_le_64 [of S] have i64: "i + sb < 64" by simp
  have "(2::nat) ^ sb * 2 ^ (?b - sb) = 2 ^ ?b"
    using sb by (simp flip: power_add)
  moreover from k2 have "2 ^ sb * k < (2::nat) ^ sb * 2 ^ (?b - sb)" by simp
  ultimately have "unat p + 2 ^ sb * k < 2 ^ 64"
    using fit by simp
  then have "pagemap_index sb (p + SUPERSLAB_SIZE sb * of_nat k) = pagemap_index sb p + k"
    by (rule pagemap_index_offset)
  then have "DefaultChunkMap_get sb pm' (p + SUPERSLAB_SIZE sb * of_nat k)
               = DefaultChunkMap_redirect_code sb i"
    by (simp only: DefaultChunkMap_get_def pagemap_get_def inner [OF ilt i])
  with unat_redirect_code [OF i64] res ilt i show ?thesis by auto
qed

lemma scenario_bits: "unat (next_pow2_bits 0x1000000) = 24"
  unfolding unat_next_pow2_bits
  by (rule ceil_log2_from_unique) simp_all

lemma scenario_fit: "unat (0x1000000 :: address_t) + 2 ^ unat (next_pow2_bits 0x1000000) \<le> 2 ^ 64"
  by (simp add: scenario_bits)

lemma scenario_cells: "(1::nat) < 2 ^ unat (next_pow2_bits 0x1000000) div 2 ^ 21"
  by (simp add: scenario_bits)

lemma scenario_offset_1:
  "\<exists>pm'. DefaultChunkMap_set_large_size 21 (pagemap_init 0) 0x1000000 0x1000000 = Inr pm'
     \<and> unat (DefaultChunkMap_get 21 pm' (0x1000000 + SUPERSLAB_SIZE 21 * 1)) = 85"
proof -
  have sb: "21 \<le> unat (next_pow2_bits 0x1000000)" by (simp add: scenario_bits)
  have k1: "(1::nat) \<le> 1" by simp
  have k2: "(1::nat) < 2 ^ (unat (next_pow2_bits 0x1000000) - 21)" by (simp add: scenario_bits)
  from body_cell [OF scenario_fit k1 k2 sb, of "pagemap_init 0"] obtain pm' i where
    res: "DefaultChunkMap_set_large_size 21 (pagemap_init 0) 0x1000000 0x1000000 = Inr pm'"
    and i: "(2::nat) ^ i \<le> 1"
    and x: "unat (DefaultChunkMap_get 21 pm' (0x1000000 + SUPERSLAB_SIZE 21 * of_nat 1)) = 64 + i + 21"
    by blast
  have "(1::nat) \<le> 2 ^ i" by simp
  with i have "(2::nat) ^ i = 1" by (rule le_antisym)
  then have "i = 0" by simp
  with res x show ?thesis by simp
qed

lemma cell_address:
  fixes p :: address_t
  assumes "unat p + 2 ^ sb * k < 2 ^ 64"
  shows "DefaultChunkMap_get sb pm (p + SUPERSLAB_SIZE sb * of_nat k) = pm (pagemap_index sb p + k)"
  by (simp only: DefaultChunkMap_get_def pagemap_get_def pagemap_index_offset [OF assms])

lemma run_in_region:
  assumes "sb \<le> b" and "i < b - sb" and "k < 2 ^ Suc i"
  shows "2 ^ sb * k < (2::nat) ^ b"
proof -
  from assms(2) have "Suc i \<le> b - sb" by simp
  then have "(2::nat) ^ Suc i \<le> 2 ^ (b - sb)" by (rule power_increasing) simp
  with assms(3) have "k < 2 ^ (b - sb)" by (rule less_le_trans)
  then have "2 ^ sb * k < (2::nat) ^ sb * 2 ^ (b - sb)" by simp
  also have "\<dots> = 2 ^ b" using assms(1) by (simp flip: power_add)
  finally show ?thesis .
qed

lemma scenario_head_code: "(ucast (next_pow2_bits 0x1000000) :: uint8_t) = 24"
  by (simp only: head_code scenario_bits) simp

subsection \<open>Clearing a large allocation\<close>

lemma bits_of_large_size:
  assumes "2 ^ sb \<le> unat S" and "unat S \<le> 2 ^ 63"
  shows "sb \<le> unat (next_pow2_bits S)" and "unat (next_pow2_bits S) < 64"
proof -
  have "unat S \<le> 2 ^ unat (next_pow2_bits S)"
    unfolding unat_next_pow2_bits by (rule ceil_log2_from_upper)
  with assms(1) have "(2::nat) ^ sb \<le> 2 ^ unat (next_pow2_bits S)"
    by (rule le_trans)
  then show "sb \<le> unat (next_pow2_bits S)"
    by simp
  from assms(2) have "unat (next_pow2_bits S) \<le> 63"
    unfolding unat_next_pow2_bits by (rule ceil_log2_from_le)
  then show "unat (next_pow2_bits S) < 64"
    by simp
qed

lemma unat_next_pow2:
  assumes "unat (next_pow2_bits S) < 64"
  shows "unat (next_pow2 S) = 2 ^ unat (next_pow2_bits S)"
proof -
  have "next_pow2 S = push_bit (unat (next_pow2_bits S)) 1"
    by (simp only: next_pow2_def unat_next_pow2_bits)
  then show ?thesis
    by (simp only: unat_run [OF assms])
qed

lemma clear_count:
  assumes "sb \<le> unat (next_pow2_bits S)" and "unat (next_pow2_bits S) < 64"
  shows "unat (drop_bit sb (next_pow2 S)) = 2 ^ (unat (next_pow2_bits S) - sb)"
proof -
  have "unat (drop_bit sb (next_pow2 S)) = 2 ^ unat (next_pow2_bits S) div 2 ^ sb"
    by (simp only: unat_drop_bit_eq drop_bit_nat_def unat_next_pow2 [OF assms(2)])
  also have "\<dots> = 2 ^ (unat (next_pow2_bits S) - sb)"
    using assms(1) by (simp add: power_diff)
  finally show ?thesis .
qed

lemma head_code_readback:
  "(ucast (ucast (next_pow2_bits S) :: uint8_t) :: size_t) = next_pow2_bits S"
proof -
  have "unat (next_pow2_bits S) < 2 ^ 8"
    using next_pow2_bits_le_64 [of S] by simp
  then have "take_bit 8 (unat (next_pow2_bits S)) = unat (next_pow2_bits S)"
    by (rule take_bit_nat_eq_self)
  then have "unat (ucast (ucast (next_pow2_bits S) :: uint8_t) :: size_t) = unat (next_pow2_bits S)"
    by (simp add: unsigned_ucast_eq unsigned_take_bit_eq)
  then show ?thesis
    by (simp only: word_unat_eq_iff)
qed

lemma clear_large_size_assertion:
  "DefaultChunkMap_clear_large_size sb pm p S = Inl AssertionFailed
     \<longleftrightarrow> (ucast (DefaultChunkMap_get sb pm p) :: size_t) \<noteq> next_pow2_bits S"
  by (simp add: DefaultChunkMap_clear_large_size_def Let_def)

lemma clear_large_size_result:
  assumes "(ucast (DefaultChunkMap_get sb pm p) :: size_t) = next_pow2_bits S"
    and "sb \<le> unat (next_pow2_bits S)" and "unat (next_pow2_bits S) < 64"
  shows "\<exists>pm'. DefaultChunkMap_clear_large_size sb pm p S = Inr pm'
     \<and> (\<forall>j. pm' j = (if pagemap_index sb p \<le> j
                         \<and> j < pagemap_index sb p + 2 ^ (unat (next_pow2_bits S) - sb)
                      then of_nat (kind_value CMNotOurs) else pm j))"
  using assms(1)
  by (simp add: DefaultChunkMap_clear_large_size_def Let_def pagemap_set_range_def
      clear_count [OF assms(2,3)])

lemma unat_head_code: "unat (of_nat (unat (next_pow2_bits S)) :: uint8_t) = unat (next_pow2_bits S)"
proof -
  have "unat (next_pow2_bits S) < 2 ^ LENGTH(8)"
    using next_pow2_bits_le_64 [of S] by simp
  then show ?thesis
    by (simp only: unat_of_nat mod_less)
qed

lemma clear_slab_Superslab_assertion:
  "DefaultChunkMap_clear_slab_Superslab sb pm a = Inl AssertionFailed
     \<longleftrightarrow> unat (DefaultChunkMap_get sb pm a) \<noteq> kind_value CMSuperslab"
  by (simp add: DefaultChunkMap_clear_slab_Superslab_def)

lemma clear_slab_Mediumslab_assertion:
  "DefaultChunkMap_clear_slab_Mediumslab sb pm a = Inl AssertionFailed
     \<longleftrightarrow> unat (DefaultChunkMap_get sb pm a) \<noteq> kind_value CMMediumslab"
  by (simp add: DefaultChunkMap_clear_slab_Mediumslab_def)

lemma clear_slab_Superslab_after_set:
  assumes "DefaultChunkMap_get sb pm' a
             = DefaultChunkMap_get sb (DefaultChunkMap_set_slab_Superslab sb pm a) a"
  shows "\<exists>pm''. DefaultChunkMap_clear_slab_Superslab sb pm' a = Inr pm''"
  using assms
  by (simp add: DefaultChunkMap_clear_slab_Superslab_def DefaultChunkMap_set_slab_Superslab_def
      DefaultChunkMap_get_set)

lemma clear_slab_Mediumslab_after_set:
  assumes "DefaultChunkMap_get sb pm' a
             = DefaultChunkMap_get sb (DefaultChunkMap_set_slab_Mediumslab sb pm a) a"
  shows "\<exists>pm''. DefaultChunkMap_clear_slab_Mediumslab sb pm' a = Inr pm''"
  using assms
  by (simp add: DefaultChunkMap_clear_slab_Mediumslab_def DefaultChunkMap_set_slab_Mediumslab_def
      DefaultChunkMap_get_set)

lemma clear_large_size_after_set:
  assumes "sb \<le> unat (next_pow2_bits S)"
    and "unat p + 2 ^ unat (next_pow2_bits S) \<le> 2 ^ 64"
  shows "\<exists>pm1. DefaultChunkMap_set_large_size sb pm p S = Inr pm1
          \<and> (\<forall>pm'. DefaultChunkMap_get sb pm' p = DefaultChunkMap_get sb pm1 p
                \<longrightarrow> (\<exists>pm''. DefaultChunkMap_clear_large_size sb pm' p S = Inr pm''))"
proof -
  from set_large_size_result [OF assms, of pm] obtain pm1 where
    res1: "DefaultChunkMap_set_large_size sb pm p S = Inr pm1"
    and hd: "pm1 (pagemap_index sb p) = of_nat (unat (next_pow2_bits S))"
    by blast
  have g: "DefaultChunkMap_get sb pm1 p = ucast (next_pow2_bits S)"
    using hd by (simp add: DefaultChunkMap_get_def pagemap_get_def)
  have "\<exists>pm''. DefaultChunkMap_clear_large_size sb pm' p S = Inr pm''"
    if "DefaultChunkMap_get sb pm' p = DefaultChunkMap_get sb pm1 p" for pm'
  proof -
    from that g have "(ucast (DefaultChunkMap_get sb pm' p) :: size_t) = next_pow2_bits S"
      by (simp only: head_code_readback)
    then show ?thesis
      by (simp add: DefaultChunkMap_clear_large_size_def Let_def)
  qed
  with res1 show ?thesis by blast
qed

lemma redirect_slide_count:
  assumes "n \<le> 64" and "i \<le> n"
  shows "\<exists>pm' ss'. redirect_slide sb code n pm ss i = Inr (pm', ss', n)"
  using assms(2)
proof (induction "n - i" arbitrary: i pm ss)
  case 0
  then have "i = n" by simp
  then show ?case by (simp add: redirect_slide_exit)
next
  case (Suc d)
  then have lt: "i < n" and d: "d = n - Suc i" and le: "Suc i \<le> n" by simp_all
  from lt assms(1) have i64: "i < 64" by simp
  from Suc.hyps(1) [OF d le] show ?case
    by (simp only: redirect_slide_step [OF lt i64])
qed

subsection \<open>The low bits of an aligned capability\<close>

lemma SUPERSLAB_SIZE_minus_1: "SUPERSLAB_SIZE sb - 1 = mask sb"
  by (simp add: SUPERSLAB_SIZE_def mask_eq_exp_minus_1)

lemma PAGEMAP_PTR_ALIGN_minus_1: "PAGEMAP_PTR_ALIGN - 1 = mask 8"
  by (simp add: PAGEMAP_PTR_ALIGN_def mask_eq_exp_minus_1)

lemma aligned_low_bits:
  assumes "8 \<le> sb" and "align_down v (SUPERSLAB_SIZE sb) = v"
  shows "take_bit 8 v = 0"
proof (rule bit_word_eqI)
  fix n assume "n < LENGTH(64)"
  from assms(2) have "v AND NOT (mask sb) = v"
    by (simp only: align_down_def SUPERSLAB_SIZE_minus_1)
  then have "bit v n \<longleftrightarrow> bit (v AND NOT (mask sb)) n"
    by simp
  then have "bit v n \<longrightarrow> \<not> n < sb"
    by (auto simp: bit_simps)
  with assms(1) show "bit (take_bit 8 v) n \<longleftrightarrow> bit (0 :: 64 word) n"
    by (auto simp: bit_simps)
qed

lemma align_down_code:
  fixes v c :: "64 word"
  assumes "take_bit 8 v = 0" and "take_bit 8 c = c"
  shows "align_down (v + c) PAGEMAP_PTR_ALIGN = v"
proof -
  have v: "\<not> bit v n" if "n < 8" for n
  proof -
    have "bit (take_bit 8 v) n \<longleftrightarrow> bit v n"
      using that by (simp add: bit_simps)
    with assms(1) show ?thesis by simp
  qed
  have c: "\<not> bit c n" if "8 \<le> n" for n
  proof -
    have "\<not> bit (take_bit 8 c) n"
      using that by (simp add: bit_simps)
    with assms(2) show ?thesis by simp
  qed
  have "v AND c = 0"
  proof (rule bit_word_eqI)
    fix n assume "n < LENGTH(64)"
    show "bit (v AND c) n \<longleftrightarrow> bit (0 :: 64 word) n"
      using v [of n] c [of n] by (cases "n < 8") (simp_all add: bit_simps)
  qed
  then have "v + c = v OR c"
    by (rule disjunctive_add_eq_or)
  moreover have "(v OR c) AND NOT (mask 8) = v"
  proof (rule bit_word_eqI)
    fix n assume "n < LENGTH(64)"
    then show "bit ((v OR c) AND NOT (mask 8)) n \<longleftrightarrow> bit v n"
      using v [of n] c [of n] by (cases "n < 8") (simp_all add: bit_simps)
  qed
  ultimately show ?thesis
    by (simp only: align_down_def PAGEMAP_PTR_ALIGN_minus_1)
qed

lemma ucast_low_bits:
  fixes v c :: "64 word"
  assumes "take_bit 8 v = 0"
  shows "(ucast (v + c) :: 8 word) = ucast c"
proof -
  have "unat (take_bit 8 v) = unat v mod 2 ^ 8"
    unfolding unsigned_take_bit_eq by (simp only: take_bit_eq_mod)
  with assms have v: "unat v mod 2 ^ 8 = 0"
    by simp
  have d: "(2::nat) ^ 8 dvd 2 ^ 64"
    by (rule le_imp_power_dvd) simp
  have "unat (ucast (v + c) :: 8 word) = unat (v + c) mod 2 ^ 8"
    by (simp add: unsigned_ucast_eq take_bit_eq_mod)
  also have "\<dots> = (unat v + unat c) mod 2 ^ 64 mod 2 ^ 8"
    by (simp only: unat_word_ariths(1)) simp
  also have "\<dots> = (unat v + unat c) mod 2 ^ 8"
    using d by (rule mod_mod_cancel)
  also have "\<dots> = (unat v mod 2 ^ 8 + unat c) mod 2 ^ 8"
    by (simp only: mod_add_left_eq)
  also have "\<dots> = unat c mod 2 ^ 8"
    by (simp only: v) simp
  also have "\<dots> = unat (ucast c :: 8 word)"
    by (simp add: unsigned_ucast_eq take_bit_eq_mod)
  finally show ?thesis
    by (simp only: word_unat_eq_iff)
qed

lemma ucast_code: "(ucast (of_nat n :: 64 word) :: 8 word) = of_nat n"
  by (rule bit_word_eqI) (simp add: bit_simps)

lemma take_bit_code:
  assumes "n < 256"
  shows "take_bit 8 (of_nat n :: 64 word) = of_nat n"
proof -
  from assms have "take_bit 8 n = n"
    by (intro take_bit_nat_eq_self) simp
  then show ?thesis
    by (simp flip: of_nat_take_bit)
qed

subsection \<open>The cells of the capability realization and their codes\<close>

lemma PalChunkMap_get_cell_code:
  "PalChunkMap_get sb pm p = cell_code (pagemap_get sb pm p)"
  by (simp add: PalChunkMap_get_def cell_code_def)

lemma cell_code_NULL: "cell_code NULL = of_nat (kind_value CMNotOurs)"
  by (simp add: cell_code_def NULL_def address_cast_def)

lemma cell_code_pointer_offset:
  assumes "take_bit 8 (address_cast vp) = 0"
  shows "cell_code (pointer_offset vp c) = ucast c"
  using ucast_low_bits [OF assms [unfolded address_cast_def], of c]
  by (simp add: cell_code_def pointer_offset_def address_cast_def)

lemma pointer_aligned_low_bits:
  assumes "8 \<le> sb" and "pointer_align_down (SUPERSLAB_SIZE sb) x = x"
  shows "take_bit 8 (address_cast x) = 0"
proof -
  from assms(2) have "cap_cursor (pointer_align_down (SUPERSLAB_SIZE sb) x) = cap_cursor x"
    by simp
  then have "align_down (cap_cursor x) (SUPERSLAB_SIZE sb) = cap_cursor x"
    by (simp add: pointer_align_down_def)
  with assms(1) show ?thesis
    unfolding address_cast_def by (rule aligned_low_bits)
qed

lemma pagemap_set_range_map:
  "pagemap_set_range sb (\<lambda>j. f (pm j)) ss (f x) run = (\<lambda>j. f (pagemap_set_range sb pm ss x run j))"
  by (rule ext) (simp add: pagemap_set_range_def)

lemma pagemap_set_map:
  "pagemap_set sb (\<lambda>j. f (pm j)) p (f x) = (\<lambda>j. f (pagemap_set sb pm p x j))"
  by (rule ext) (simp add: pagemap_set_def)

lemma redirect_slide_map:
  "redirect_slide sb (\<lambda>i. f (code i)) n (\<lambda>j. f (pm j)) ss i
     = map_sum id (\<lambda>(pm', ss', i'). (\<lambda>j. f (pm' j), ss', i')) (redirect_slide sb code n pm ss i)"
proof (induction "n - i" arbitrary: i pm ss)
  case 0
  then have "\<not> i < n" by simp
  then show ?case by (simp add: redirect_slide_exit)
next
  case (Suc d)
  then have lt: "i < n" and d: "d = n - Suc i" by simp_all
  show ?case
  proof (cases "64 \<le> i")
    case True
    with lt show ?thesis by (simp add: redirect_slide_shift)
  next
    case False
    then have i64: "i < 64" by simp
    show ?thesis
      by (simp only: redirect_slide_step [OF lt i64] pagemap_set_range_map Suc.hyps(1) [OF d])
  qed
qed

lemma set_large_size_loop_agree:
  assumes "take_bit 8 (address_cast vp) = 0"
  shows "DefaultChunkMap_set_large_size_loop sb (\<lambda>j. cell_code (c j)) (address_cast vp) S
     = map_sum id (\<lambda>(pm', ss', i'). (\<lambda>j. cell_code (pm' j), ss', i'))
         (PalChunkMap_set_large_size_loop sb c vp S)"
proof -
  have code: "DefaultChunkMap_redirect_code sb = (\<lambda>i. cell_code (PalChunkMap_redirect_code sb vp i))"
    by (rule ext)
      (simp only: DefaultChunkMap_redirect_code_def PalChunkMap_redirect_code_def
        cell_code_pointer_offset [OF assms] ucast_code)
  have head: "DefaultChunkMap_set sb (\<lambda>j. cell_code (c j)) (address_cast vp) (ucast (next_pow2_bits S))
      = (\<lambda>j. cell_code (PalChunkMap_set sb c vp (pointer_offset vp (next_pow2_bits S)) j))"
    by (simp only: DefaultChunkMap_set_def PalChunkMap_set_def pagemap_set_map [symmetric]
        cell_code_pointer_offset [OF assms])
  have cursor: "address_cast (pointer_offset vp (SUPERSLAB_SIZE sb))
                  = address_cast vp + SUPERSLAB_SIZE sb"
    by (simp add: address_cast_def pointer_offset_def)
  show ?thesis
    by (simp only: DefaultChunkMap_set_large_size_loop_def PalChunkMap_set_large_size_loop_def
        Let_def head cursor code redirect_slide_map)
qed

lemma set_large_size_agree:
  assumes "take_bit 8 (address_cast vp) = 0"
    and "DefaultChunkMap_set_large_size sb (\<lambda>j. cell_code (c j)) (address_cast vp) S = Inr d'"
  shows "\<exists>c'. PalChunkMap_set_large_size sb c vp S = Inr c' \<and> d' = (\<lambda>j. cell_code (c' j))"
proof (cases "PalChunkMap_set_large_size_loop sb c vp S")
  case (Inl e)
  with assms(2) show ?thesis
    by (simp add: DefaultChunkMap_set_large_size_def set_large_size_loop_agree [OF assms(1)])
next
  case (Inr r)
  obtain c' ss' i' where "r = (c', ss', i')" by (cases r)
  with Inr assms(2) show ?thesis
    by (simp add: DefaultChunkMap_set_large_size_def PalChunkMap_set_large_size_def
        set_large_size_loop_agree [OF assms(1)])
qed

lemma clear_large_size_agree:
  assumes "DefaultChunkMap_clear_large_size sb (\<lambda>j. cell_code (c j)) (address_cast vp) S = Inr d'"
  shows "\<exists>c'. PalChunkMap_clear_large_size sb c vp S = Inr c' \<and> d' = (\<lambda>j. cell_code (c' j))"
proof -
  have get: "DefaultChunkMap_get sb (\<lambda>j. cell_code (c j)) (address_cast vp)
               = PalChunkMap_get sb c (address_cast vp)"
    by (simp add: DefaultChunkMap_get_def PalChunkMap_get_cell_code pagemap_get_def)
  have rng: "pagemap_set_range sb (\<lambda>j. cell_code (c j)) p (of_nat (kind_value CMNotOurs)) n
               = (\<lambda>j. cell_code (pagemap_set_range sb c p NULL n j))" for p n
    by (simp only: cell_code_NULL [symmetric] pagemap_set_range_map)
  from assms show ?thesis
    unfolding DefaultChunkMap_clear_large_size_def PalChunkMap_clear_large_size_def Let_def get rng
    by (auto split: if_splits)
qed

lemma set_slab_Superslab_agree:
  assumes "8 \<le> sb" and "pointer_align_down (SUPERSLAB_SIZE sb) slab = slab"
  shows "\<exists>c'. PalChunkMap_set_slab_Superslab sb c slab = Inr c'
     \<and> DefaultChunkMap_set_slab_Superslab sb (\<lambda>j. cell_code (c j)) (address_cast slab)
         = (\<lambda>j. cell_code (c' j))"
proof -
  note low = pointer_aligned_low_bits [OF assms]
  have "cell_code (pointer_offset slab (of_nat (kind_value CMSuperslab)))
          = of_nat (kind_value CMSuperslab)"
    by (simp only: cell_code_pointer_offset [OF low] ucast_code)
  then have "DefaultChunkMap_set_slab_Superslab sb (\<lambda>j. cell_code (c j)) (address_cast slab)
      = (\<lambda>j. cell_code (PalChunkMap_set sb c slab
                 (pointer_offset slab (of_nat (kind_value CMSuperslab))) j))"
    by (simp only: DefaultChunkMap_set_slab_Superslab_def DefaultChunkMap_set_def
        PalChunkMap_set_def pagemap_set_map [symmetric])
  with assms(2) show ?thesis
    by (simp add: PalChunkMap_set_slab_Superslab_def)
qed

lemma set_slab_Mediumslab_agree:
  assumes "8 \<le> sb" and "pointer_align_down (SUPERSLAB_SIZE sb) slab = slab"
  shows "\<exists>c'. PalChunkMap_set_slab_Mediumslab sb c slab = Inr c'
     \<and> DefaultChunkMap_set_slab_Mediumslab sb (\<lambda>j. cell_code (c j)) (address_cast slab)
         = (\<lambda>j. cell_code (c' j))"
proof -
  note low = pointer_aligned_low_bits [OF assms]
  have "cell_code (pointer_offset slab (of_nat (kind_value CMMediumslab)))
          = of_nat (kind_value CMMediumslab)"
    by (simp only: cell_code_pointer_offset [OF low] ucast_code)
  then have "DefaultChunkMap_set_slab_Mediumslab sb (\<lambda>j. cell_code (c j)) (address_cast slab)
      = (\<lambda>j. cell_code (PalChunkMap_set sb c slab
                 (pointer_offset slab (of_nat (kind_value CMMediumslab))) j))"
    by (simp only: DefaultChunkMap_set_slab_Mediumslab_def DefaultChunkMap_set_def
        PalChunkMap_set_def pagemap_set_map [symmetric])
  with assms(2) show ?thesis
    by (simp add: PalChunkMap_set_slab_Mediumslab_def)
qed

lemma clear_slab_agree:
  assumes "pointer_align_down (SUPERSLAB_SIZE sb) slab = slab"
  shows "DefaultChunkMap_clear_slab_Superslab sb (\<lambda>j. cell_code (c j)) (address_cast slab) = Inr d'
           \<Longrightarrow> \<exists>c'. PalChunkMap_clear_slab_Superslab sb c slab = Inr c' \<and> d' = (\<lambda>j. cell_code (c' j))"
    and "DefaultChunkMap_clear_slab_Mediumslab sb (\<lambda>j. cell_code (c j)) (address_cast slab) = Inr d'
           \<Longrightarrow> \<exists>c'. PalChunkMap_clear_slab_Mediumslab sb c slab = Inr c' \<and> d' = (\<lambda>j. cell_code (c' j))"
proof -
  have clr: "DefaultChunkMap_set sb (\<lambda>j. cell_code (c j)) (address_cast slab) (of_nat (kind_value CMNotOurs))
      = (\<lambda>j. cell_code (PalChunkMap_set sb c slab NULL j))"
    by (simp only: DefaultChunkMap_set_def PalChunkMap_set_def cell_code_NULL [symmetric]
        pagemap_set_map)
  show "DefaultChunkMap_clear_slab_Superslab sb (\<lambda>j. cell_code (c j)) (address_cast slab) = Inr d'
           \<Longrightarrow> \<exists>c'. PalChunkMap_clear_slab_Superslab sb c slab = Inr c' \<and> d' = (\<lambda>j. cell_code (c' j))"
    unfolding DefaultChunkMap_clear_slab_Superslab_def PalChunkMap_clear_slab_Superslab_def clr
    using assms by (auto split: if_splits)
  show "DefaultChunkMap_clear_slab_Mediumslab sb (\<lambda>j. cell_code (c j)) (address_cast slab) = Inr d'
           \<Longrightarrow> \<exists>c'. PalChunkMap_clear_slab_Mediumslab sb c slab = Inr c' \<and> d' = (\<lambda>j. cell_code (c' j))"
    unfolding DefaultChunkMap_clear_slab_Mediumslab_def PalChunkMap_clear_slab_Mediumslab_def clr
    using assms by (auto split: if_splits)
qed

lemma call_agree:
  assumes "8 \<le> sb" and "pointer_align_down (SUPERSLAB_SIZE sb) (op_pointer x) = op_pointer x"
    and "DefaultChunkMap_call sb (\<lambda>j. cell_code (c j)) x = Inr d'"
  shows "\<exists>c'. PalChunkMap_call sb c x = Inr c' \<and> d' = (\<lambda>j. cell_code (c' j))"
proof (cases x)
  case (Set_slab_Superslab s)
  with assms set_slab_Superslab_agree [of sb s c] show ?thesis by auto
next
  case (Set_slab_Mediumslab s)
  with assms set_slab_Mediumslab_agree [of sb s c] show ?thesis by auto
next
  case (Clear_slab_Superslab s)
  with assms clear_slab_agree(1) [of sb s c d'] show ?thesis by auto
next
  case (Clear_slab_Mediumslab s)
  with assms clear_slab_agree(2) [of sb s c d'] show ?thesis by auto
next
  case (Set_large_size vp S)
  with assms(1,2) have "take_bit 8 (address_cast vp) = 0"
    by (simp add: pointer_aligned_low_bits)
  from set_large_size_agree [OF this] assms(3) Set_large_size show ?thesis by simp
next
  case (Clear_large_size vp S)
  with assms(3) clear_large_size_agree [of sb c vp S d'] show ?thesis by simp
qed

lemma run_calls_agree:
  assumes "8 \<le> sb"
    and "\<forall>x \<in> set ops. pointer_align_down (SUPERSLAB_SIZE sb) (op_pointer x) = op_pointer x"
    and "run_calls (DefaultChunkMap_call sb) (\<lambda>j. cell_code (c j)) ops = Inr d'"
  shows "\<exists>c'. run_calls (PalChunkMap_call sb) c ops = Inr c' \<and> d' = (\<lambda>j. cell_code (c' j))"
  using assms(2,3)
proof (induction ops arbitrary: c)
  case Nil
  then show ?case by simp
next
  case (Cons x xs)
  from Cons.prems(2) obtain d1 where
    d1: "DefaultChunkMap_call sb (\<lambda>j. cell_code (c j)) x = Inr d1"
    and rest: "run_calls (DefaultChunkMap_call sb) d1 xs = Inr d'"
    by (auto split: sum.splits)
  from Cons.prems(1) have al: "pointer_align_down (SUPERSLAB_SIZE sb) (op_pointer x) = op_pointer x"
    by simp
  from call_agree [OF assms(1) al d1] obtain c1 where
    c1: "PalChunkMap_call sb c x = Inr c1" and d1c: "d1 = (\<lambda>j. cell_code (c1 j))"
    by blast
  from Cons.prems(1) have "\<forall>x \<in> set xs. pointer_align_down (SUPERSLAB_SIZE sb) (op_pointer x) = op_pointer x"
    by simp
  from Cons.IH [OF this rest [unfolded d1c]] c1 show ?case
    by simp
qed

lemma pagemap_init_cell_code: "(\<lambda>j. cell_code (pagemap_init NULL j)) = pagemap_init (of_nat (kind_value CMNotOurs))"
  by (rule ext) (simp add: pagemap_init_def cell_code_NULL)

lemma scenario_pointer_aligned:
  "pointer_align_down (SUPERSLAB_SIZE 21)
     \<lparr>cap_base = 0x1000000, cap_length = 0x1000000, cap_cursor = 0x1000000\<rparr>
   = \<lparr>cap_base = 0x1000000, cap_length = 0x1000000, cap_cursor = 0x1000000\<rparr>"
  by (simp add: pointer_align_down_def align_down_def SUPERSLAB_SIZE_def)

lemma PalChunkMap_set_large_size_result:
  assumes "sb \<le> unat (next_pow2_bits S)"
    and "unat (address_cast vp) + 2 ^ unat (next_pow2_bits S) \<le> 2 ^ 64"
  shows "\<exists>pm'. PalChunkMap_set_large_size sb pm vp S = Inr pm'
          \<and> pm' (pagemap_index sb (address_cast vp)) = pointer_offset vp (next_pow2_bits S)
          \<and> (\<forall>i k. i < unat (next_pow2_bits S) - sb \<and> 2 ^ i \<le> k \<and> k < 2 ^ Suc i
                \<longrightarrow> pm' (pagemap_index sb (address_cast vp) + k) = PalChunkMap_redirect_code sb vp i)
          \<and> (\<forall>j. j < pagemap_index sb (address_cast vp) \<or>
                   pagemap_index sb (address_cast vp) + 2 ^ (unat (next_pow2_bits S) - sb) \<le> j
                \<longrightarrow> pm' j = pm j)"
proof -
  let ?b = "unat (next_pow2_bits S)"
  let ?n = "?b - sb"
  let ?p = "address_cast vp"
  let ?pm1 = "PalChunkMap_set sb pm vp (pointer_offset vp (next_pow2_bits S))"
  have n64: "?n \<le> 64"
    using next_pow2_bits_le_64 [of S] by simp
  have "(2::nat) ^ sb * 2 ^ ?n = 2 ^ ?b"
    using assms(1) by (simp flip: power_add)
  with assms(2) have fit: "unat ?p + 2 ^ sb * 2 ^ ?n \<le> 2 ^ 64"
    by simp
  have cursor: "address_cast (pointer_offset vp (SUPERSLAB_SIZE sb))
                  = ?p + SUPERSLAB_SIZE sb * of_nat (2 ^ 0)"
    by (simp add: address_cast_def pointer_offset_def)
  from redirect_slide_cells [OF n64 fit, of 0 "PalChunkMap_redirect_code sb vp" ?pm1]
  obtain pm' where
    run: "redirect_slide sb (PalChunkMap_redirect_code sb vp) ?n ?pm1
            (?p + SUPERSLAB_SIZE sb * of_nat (2 ^ 0)) 0
            = Inr (pm', ?p + SUPERSLAB_SIZE sb * of_nat (2 ^ ?n), ?n)"
    and inner: "\<And>i k. i < ?n \<Longrightarrow> 2 ^ i \<le> k \<Longrightarrow> k < 2 ^ Suc i
                  \<Longrightarrow> pm' (pagemap_index sb ?p + k) = PalChunkMap_redirect_code sb vp i"
    and outer: "\<And>j. j < pagemap_index sb ?p + 2 ^ 0 \<or> pagemap_index sb ?p + 2 ^ ?n \<le> j
                  \<Longrightarrow> pm' j = ?pm1 j"
    by auto
  have res: "PalChunkMap_set_large_size sb pm vp S = Inr pm'"
    unfolding PalChunkMap_set_large_size_def PalChunkMap_set_large_size_loop_def Let_def
      slide_bound [OF assms(1)] cursor run
    by simp
  have hd: "pm' (pagemap_index sb ?p) = pointer_offset vp (next_pow2_bits S)"
    using outer [of "pagemap_index sb ?p"]
    by (simp add: PalChunkMap_set_def pagemap_set_def)
  have rest: "pm' j = pm j"
    if "j < pagemap_index sb ?p \<or> pagemap_index sb ?p + 2 ^ ?n \<le> j" for j
  proof -
    from that have "j \<noteq> pagemap_index sb ?p" by auto
    moreover from that have "pm' j = ?pm1 j"
      by (intro outer) auto
    ultimately show ?thesis
      by (simp add: PalChunkMap_set_def pagemap_set_def)
  qed
  from res hd inner rest show ?thesis by blast
qed

lemma scenario_bits_word: "next_pow2_bits 0x1000000 = 24"
proof -
  have "unat (next_pow2_bits 0x1000000) = unat (24 :: size_t)"
    by (simp add: scenario_bits)
  then show ?thesis
    by (simp only: word_unat_eq_iff)
qed

lemma scenario_index_unaligned: "pagemap_index 21 0x1000001 = 8"
  by (simp add: pagemap_index_def drop_bit_eq_div)

lemma scenario_unaligned_fit:
  "unat (0x1000001 :: address_t) + 2 ^ unat (next_pow2_bits 0x1000000) \<le> 2 ^ 64"
  by (simp add: scenario_bits)

lemma scenario_unaligned_default:
  "\<exists>d. DefaultChunkMap_set_large_size 21 (pagemap_init 0) 0x1000001 0x1000000 = Inr d
     \<and> DefaultChunkMap_get 21 d 0x1000001 = 24"
proof -
  have sb: "21 \<le> unat (next_pow2_bits 0x1000000)" by (simp add: scenario_bits)
  from set_large_size_result [OF sb scenario_unaligned_fit, of "pagemap_init 0"]
  show ?thesis
    by (auto simp: DefaultChunkMap_get_def pagemap_get_def scenario_bits)
qed

lemma scenario_unaligned_pal:
  "\<exists>c. PalChunkMap_set_large_size 21 (pagemap_init NULL)
          \<lparr>cap_base = 0x1000000, cap_length = 0x1000000, cap_cursor = 0x1000001\<rparr> 0x1000000 = Inr c
     \<and> PalChunkMap_get 21 c 0x1000001 = 25"
proof -
  let ?vp = "\<lparr>cap_base = 0x1000000, cap_length = 0x1000000, cap_cursor = 0x1000001 :: address_t\<rparr>"
  have sb: "21 \<le> unat (next_pow2_bits 0x1000000)" by (simp add: scenario_bits)
  have fit: "unat (address_cast ?vp) + 2 ^ unat (next_pow2_bits 0x1000000) \<le> 2 ^ 64"
    by (simp add: address_cast_def scenario_bits)
  from PalChunkMap_set_large_size_result [OF sb fit, of "pagemap_init NULL"]
  obtain c where res: "PalChunkMap_set_large_size 21 (pagemap_init NULL) ?vp 0x1000000 = Inr c"
    and hd: "c (pagemap_index 21 (address_cast ?vp)) = pointer_offset ?vp (next_pow2_bits 0x1000000)"
    by blast
  from hd have "c 8 = pointer_offset ?vp 24"
    by (simp add: address_cast_def scenario_index_unaligned scenario_bits_word)
  then have "PalChunkMap_get 21 c 0x1000001 = 25"
    by (simp add: PalChunkMap_get_def pagemap_get_def scenario_index_unaligned
        pointer_offset_def address_cast_def)
  with res show ?thesis by blast
qed

lemma scenario_default_run:
  "\<exists>d. run_calls (DefaultChunkMap_call 21) (pagemap_init 0)
          [Set_slab_Superslab \<lparr>cap_base = 0x1000000, cap_length = 0x1000000, cap_cursor = 0x1000000\<rparr>,
           Clear_slab_Superslab \<lparr>cap_base = 0x1000000, cap_length = 0x1000000, cap_cursor = 0x1000000\<rparr>,
           Set_large_size \<lparr>cap_base = 0x1000000, cap_length = 0x1000000, cap_cursor = 0x1000000\<rparr>
             0x1000000] = Inr d"
proof -
  from clear_slab_Superslab_after_set [OF refl, of 21 "pagemap_init 0" "0x1000000"]
  obtain pm2 where pm2: "DefaultChunkMap_clear_slab_Superslab 21
      (DefaultChunkMap_set_slab_Superslab 21 (pagemap_init 0) 0x1000000) 0x1000000 = Inr pm2"
    by blast
  have sb: "21 \<le> unat (next_pow2_bits 0x1000000)" by (simp add: scenario_bits)
  from set_large_size_result [OF sb scenario_fit, of pm2]
  obtain pm3 where pm3: "DefaultChunkMap_set_large_size 21 pm2 0x1000000 0x1000000 = Inr pm3"
    by blast
  show ?thesis
    by (simp add: address_cast_def pm2 pm3)
qed

subsection \<open>Rederiving the internal pointer\<close>

lemma getp_offset:
  "PalChunkMap_getp True sb pm p = (PalChunkMap_getp False sb pm p)\<lparr>cap_cursor := address_cast p\<rparr>"
  by (simp add: PalChunkMap_getp_def Let_def pointer_offset_def pointer_diff_def address_cast_def)

lemma getp_masked:
  "PalChunkMap_getp False sb pm p
     = pointer_align_down PAGEMAP_PTR_ALIGN (pagemap_get sb pm (address_cast p))"
  by (simp add: PalChunkMap_getp_def)

lemma getp_low_bits: "take_bit 8 (address_cast (PalChunkMap_getp False sb pm p)) = 0"
proof -
  have "take_bit 8 (x AND NOT (mask 8)) = 0" for x :: address_t
    by (rule bit_word_eqI) (simp add: bit_simps)
  then show ?thesis
    by (simp add: getp_masked pointer_align_down_def address_cast_def align_down_def
        PAGEMAP_PTR_ALIGN_minus_1 del: take_bit_of_0)
qed

lemma getp_of_cell:
  assumes "pagemap_get sb pm (address_cast p) = pointer_offset base c"
    and "take_bit 8 (address_cast base) = 0" and "take_bit 8 c = c"
  shows "PalChunkMap_getp False sb pm p = base"
proof -
  have "align_down (cap_cursor base + c) PAGEMAP_PTR_ALIGN = cap_cursor base"
    using assms(2,3) unfolding address_cast_def by (rule align_down_code)
  then show ?thesis
    by (simp add: getp_masked assms(1) pointer_align_down_def pointer_offset_def)
qed

lemma take_bit_head_code: "take_bit 8 (next_pow2_bits S) = next_pow2_bits S"
proof -
  have "unat (next_pow2_bits S) < 256"
    using next_pow2_bits_le_64 [of S] by simp
  then have "take_bit 8 (of_nat (unat (next_pow2_bits S)) :: 64 word) = of_nat (unat (next_pow2_bits S))"
    by (rule take_bit_code)
  then show ?thesis by simp
qed

lemma getp_after_set_slab_Superslab:
  assumes "8 \<le> sb" and "pointer_align_down (SUPERSLAB_SIZE sb) slab = slab"
    and "pagemap_index sb (address_cast p) = pagemap_index sb (address_cast slab)"
  shows "\<exists>pm'. PalChunkMap_set_slab_Superslab sb pm slab = Inr pm'
           \<and> PalChunkMap_getp False sb pm' p = slab"
proof -
  let ?pm' = "PalChunkMap_set sb pm slab (pointer_offset slab (of_nat (kind_value CMSuperslab)))"
  have "pagemap_get sb ?pm' (address_cast p) = pointer_offset slab (of_nat (kind_value CMSuperslab))"
    by (simp add: PalChunkMap_set_def pagemap_set_def pagemap_get_def assms(3))
  moreover have "take_bit 8 (of_nat (kind_value CMSuperslab) :: 64 word) = of_nat (kind_value CMSuperslab)"
    by (rule take_bit_code) simp
  ultimately have "PalChunkMap_getp False sb ?pm' p = slab"
    using pointer_aligned_low_bits [OF assms(1,2)] by (intro getp_of_cell)
  with assms(2) show ?thesis
    by (simp add: PalChunkMap_set_slab_Superslab_def)
qed

lemma getp_after_set_slab_Mediumslab:
  assumes "8 \<le> sb" and "pointer_align_down (SUPERSLAB_SIZE sb) slab = slab"
    and "pagemap_index sb (address_cast p) = pagemap_index sb (address_cast slab)"
  shows "\<exists>pm'. PalChunkMap_set_slab_Mediumslab sb pm slab = Inr pm'
           \<and> PalChunkMap_getp False sb pm' p = slab"
proof -
  let ?pm' = "PalChunkMap_set sb pm slab (pointer_offset slab (of_nat (kind_value CMMediumslab)))"
  have "pagemap_get sb ?pm' (address_cast p) = pointer_offset slab (of_nat (kind_value CMMediumslab))"
    by (simp add: PalChunkMap_set_def pagemap_set_def pagemap_get_def assms(3))
  moreover have "take_bit 8 (of_nat (kind_value CMMediumslab) :: 64 word) = of_nat (kind_value CMMediumslab)"
    by (rule take_bit_code) simp
  ultimately have "PalChunkMap_getp False sb ?pm' p = slab"
    using pointer_aligned_low_bits [OF assms(1,2)] by (intro getp_of_cell)
  with assms(2) show ?thesis
    by (simp add: PalChunkMap_set_slab_Mediumslab_def)
qed

lemma getp_after_set_large_size:
  assumes "8 \<le> sb" and "pointer_align_down (SUPERSLAB_SIZE sb) vp = vp"
    and "sb \<le> unat (next_pow2_bits S)"
    and "unat (address_cast vp) + 2 ^ unat (next_pow2_bits S) \<le> 2 ^ 64"
    and "pagemap_index sb (address_cast p) = pagemap_index sb (address_cast vp) + k"
    and "k < 2 ^ (unat (next_pow2_bits S) - sb)"
  shows "\<exists>pm'. PalChunkMap_set_large_size sb pm vp S = Inr pm'
           \<and> PalChunkMap_getp False sb pm' p = vp"
proof -
  let ?b = "unat (next_pow2_bits S)"
  let ?m = "pagemap_index sb (address_cast vp)"
  note low = pointer_aligned_low_bits [OF assms(1,2)]
  from PalChunkMap_set_large_size_result [OF assms(3,4), of pm] obtain pm' where
    res: "PalChunkMap_set_large_size sb pm vp S = Inr pm'"
    and hd: "pm' ?m = pointer_offset vp (next_pow2_bits S)"
    and inner: "\<And>i k. i < ?b - sb \<Longrightarrow> 2 ^ i \<le> k \<Longrightarrow> k < 2 ^ Suc i
                  \<Longrightarrow> pm' (?m + k) = PalChunkMap_redirect_code sb vp i"
    by blast
  have "PalChunkMap_getp False sb pm' p = vp"
  proof (cases "k = 0")
    case True
    with hd assms(5) have "pagemap_get sb pm' (address_cast p) = pointer_offset vp (next_pow2_bits S)"
      by (simp add: pagemap_get_def)
    then show ?thesis
      using low take_bit_head_code by (rule getp_of_cell)
  next
    case False
    then have k1: "1 \<le> k" by simp
    from ex_power_ivl1 [of 2 k] k1 obtain i where i: "2 ^ i \<le> k" "k < 2 ^ Suc i"
      by auto
    from i(1) assms(6) have "(2::nat) ^ i < 2 ^ (?b - sb)" by (rule le_less_trans)
    then have ilt: "i < ?b - sb" by simp
    with next_pow2_bits_le_64 [of S] have "64 + i + sb < 256" by simp
    then have tb: "take_bit 8 (of_nat (64 + i + sb) :: 64 word) = of_nat (64 + i + sb)"
      by (rule take_bit_code)
    have "pagemap_get sb pm' (address_cast p) = pointer_offset vp (of_nat (64 + i + sb))"
      by (simp only: pagemap_get_def assms(5) inner [OF ilt i] PalChunkMap_redirect_code_def)
    then show ?thesis
      using low tb by (rule getp_of_cell)
  qed
  with res show ?thesis by blast
qed

lemma scenario_index_interior: "pagemap_index 21 0x1000010 = 8"
  by (simp add: pagemap_index_def drop_bit_eq_div)

lemma scenario_index_body: "pagemap_index 21 0x1A00010 = 13"
  by (simp add: pagemap_index_def drop_bit_eq_div)

section \<open>The properties of the specification\<close>

text \<open>
  C9: on ordinary (non-capability) hardware, rederiving an internal pointer is the identity:
  for every pointer \<open>p\<close>, \<^verbatim>\<open>DefaultChunkMap::getp(p)\<close> returns \<open>p\<close>; the pagemap is not
  among its arguments, so it reads no state.
\<close>

theorem DefaultChunkMap_getp_identity: "DefaultChunkMap_getp p = p"
  by (simp add: DefaultChunkMap_getp_def)

text \<open>
  C4: for every address \<open>a\<close> (granule-aligned or not), immediately after
  \<^verbatim>\<open>set_slab\<close> on a superslab at \<open>a\<close>, \<^verbatim>\<open>get(a)\<close> returns \<^verbatim>\<open>CMSuperslab = 1\<close>, and after
  \<^verbatim>\<open>set_slab\<close> on a medium slab it returns \<^verbatim>\<open>CMMediumslab = 2\<close>; \<^verbatim>\<open>clear_slab\<close> right after
  the matching \<^verbatim>\<open>set_slab\<close> succeeds, and after any \<^verbatim>\<open>clear_slab\<close> that succeeds \<^verbatim>\<open>get(a)\<close>
  returns \<^verbatim>\<open>CMNotOurs = 0\<close>. Each of these operations writes the single cell that
  contains \<open>a\<close>: every address in another cell classifies as before.
\<close>

theorem slab_registration_classify:
  "DefaultChunkMap_get sb (DefaultChunkMap_set_slab_Superslab sb pm a) a
       = of_nat (kind_value CMSuperslab)
   \<and> DefaultChunkMap_get sb (DefaultChunkMap_set_slab_Mediumslab sb pm a) a
       = of_nat (kind_value CMMediumslab)
   \<and> (\<exists>pm'. DefaultChunkMap_clear_slab_Superslab sb
               (DefaultChunkMap_set_slab_Superslab sb pm a) a = Inr pm'
          \<and> DefaultChunkMap_get sb pm' a = of_nat (kind_value CMNotOurs))
   \<and> (\<exists>pm'. DefaultChunkMap_clear_slab_Mediumslab sb
               (DefaultChunkMap_set_slab_Mediumslab sb pm a) a = Inr pm'
          \<and> DefaultChunkMap_get sb pm' a = of_nat (kind_value CMNotOurs))
   \<and> (\<forall>pm'. DefaultChunkMap_clear_slab_Superslab sb pm a = Inr pm'
              \<or> DefaultChunkMap_clear_slab_Mediumslab sb pm a = Inr pm'
          \<longrightarrow> DefaultChunkMap_get sb pm' a = of_nat (kind_value CMNotOurs)
              \<and> (\<forall>q. pagemap_index sb q \<noteq> pagemap_index sb a
                    \<longrightarrow> DefaultChunkMap_get sb pm' q = DefaultChunkMap_get sb pm q))
   \<and> (\<forall>q. pagemap_index sb q \<noteq> pagemap_index sb a
          \<longrightarrow> DefaultChunkMap_get sb (DefaultChunkMap_set_slab_Superslab sb pm a) q
                = DefaultChunkMap_get sb pm q
            \<and> DefaultChunkMap_get sb (DefaultChunkMap_set_slab_Mediumslab sb pm a) q
                = DefaultChunkMap_get sb pm q)"
  by (auto simp: DefaultChunkMap_set_slab_Superslab_def DefaultChunkMap_set_slab_Mediumslab_def
      DefaultChunkMap_clear_slab_Superslab_def DefaultChunkMap_clear_slab_Mediumslab_def
      DefaultChunkMap_get_set split: if_splits)

theorem slab_registration_classify_witness:
  "DefaultChunkMap_get 21 (DefaultChunkMap_set_slab_Superslab 21 (pagemap_init 0) 0x1000000)
       0x1000000 = 1
   \<and> DefaultChunkMap_get 21 (DefaultChunkMap_set_slab_Superslab 21 (pagemap_init 0) 0x1000000)
       0x1200000 = DefaultChunkMap_get 21 (pagemap_init 0) 0x1200000
   \<and> (\<exists>pm'. DefaultChunkMap_clear_slab_Superslab 21
               (DefaultChunkMap_set_slab_Superslab 21 (pagemap_init 0) 0x1000000) 0x1000000
             = Inr pm'
          \<and> DefaultChunkMap_get 21 pm' 0x1000000 = 0)"
  using slab_registration_classify [of 21 "pagemap_init 0" "0x1000000"]
  by (simp add: scenario_index_head scenario_index_1)

text \<open>
  C7: the tag values 0, 1 and 2 are pairwise different, and none of them lies in the
  range of head codes, from \<^verbatim>\<open>SUPERSLAB_BITS\<close> (inclusive) to 64 (exclusive), or in the
  range of redirect codes, from 64 (inclusive) to 128 (exclusive); the two ranges do not
  meet. The disjointness holds exactly when the compile-time assertion
  \<^verbatim>\<open>SUPERSLAB_BITS > CMMediumslab\<close> does.
\<close>

theorem kinds_disjoint_from_codes:
  "inj kind_value
   \<and> head_codes sb \<inter> redirect_codes = {}
   \<and> (chunkmap_static_assert sb \<longleftrightarrow> (\<forall>k. kind_value k \<notin> head_codes sb \<union> redirect_codes))"
proof -
  have "inj kind_value"
  proof (rule injI)
    fix x y assume "kind_value x = kind_value y"
    then show "x = y" by (cases x; cases y) simp_all
  qed
  moreover have "head_codes sb \<inter> redirect_codes = {}"
    by (auto simp: head_codes_def redirect_codes_def)
  moreover have "chunkmap_static_assert sb \<longleftrightarrow> (\<forall>k. kind_value k \<notin> head_codes sb \<union> redirect_codes)"
  proof
    assume a: "chunkmap_static_assert sb"
    show "\<forall>k. kind_value k \<notin> head_codes sb \<union> redirect_codes"
    proof
      fix k
      from a show "kind_value k \<notin> head_codes sb \<union> redirect_codes"
        by (cases k) (simp_all add: chunkmap_static_assert_def head_codes_def redirect_codes_def)
    qed
  next
    assume "\<forall>k. kind_value k \<notin> head_codes sb \<union> redirect_codes"
    then have "kind_value CMMediumslab \<notin> head_codes sb" by blast
    then show "chunkmap_static_assert sb"
      by (simp add: chunkmap_static_assert_def head_codes_def)
  qed
  ultimately show ?thesis by blast
qed

theorem kinds_disjoint_from_codes_witness:
  "chunkmap_static_assert 21 \<and> kind_value CMMediumslab \<notin> head_codes 21 \<union> redirect_codes
   \<and> \<not> chunkmap_static_assert 2 \<and> kind_value CMMediumslab \<in> head_codes 2"
  using kinds_disjoint_from_codes [of 21] kinds_disjoint_from_codes [of 2]
  by (simp add: chunkmap_static_assert_def head_codes_def redirect_codes_def)

text \<open>
  C1, as the code has it: let \<open>b\<close> be \<^verbatim>\<open>next_pow2_bits(S)\<close>, and let the rounded region
  \<open>[p, p + 2^b)\<close> lie in the 64-bit address space. For every \<open>k\<close> with
  \<open>1 \<le> k < 2^b / granule\<close>, \<^verbatim>\<open>set_large_size(p, S)\<close> returns and the cell at
  \<open>p + k * granule\<close> holds a code \<open>x \<ge> 64 + SUPERSLAB_BITS\<close> that bounds the distance to the
  head in bytes: \<open>2^(x-64) \<le> k * granule < 2^(x+1-64)\<close>; in cells,
  \<open>2^(x-64-SUPERSLAB_BITS) \<le> k < 2^(x+1-64-SUPERSLAB_BITS)\<close>.
\<close>

theorem redirect_code_bounds_byte_distance:
  assumes "unat p + 2 ^ unat (next_pow2_bits S) \<le> 2 ^ 64"
    and "1 \<le> k" and "k < 2 ^ unat (next_pow2_bits S) div 2 ^ sb"
  shows "\<exists>pm' x. DefaultChunkMap_set_large_size sb pm p S = Inr pm'
           \<and> unat (DefaultChunkMap_get sb pm' (p + SUPERSLAB_SIZE sb * of_nat k)) = x
           \<and> 64 + sb \<le> x
           \<and> 2 ^ (x - 64) \<le> k * 2 ^ sb \<and> k * 2 ^ sb < 2 ^ (x + 1 - 64)
           \<and> 2 ^ (x - 64 - sb) \<le> k \<and> k < 2 ^ (x + 1 - 64 - sb)"
proof -
  let ?b = "unat (next_pow2_bits S)"
  from assms(2,3) have pos: "0 < (2::nat) ^ ?b div 2 ^ sb" by simp
  note sb = div_pow2(1) [OF pos]
  from assms(3) have k2: "k < 2 ^ (?b - sb)"
    by (simp only: div_pow2(2) [OF pos])
  from body_cell [OF assms(1,2) k2 sb, of pm] obtain pm' i where
    res: "DefaultChunkMap_set_large_size sb pm p S = Inr pm'"
    and i: "2 ^ i \<le> k" "k < 2 ^ Suc i"
    and x: "unat (DefaultChunkMap_get sb pm' (p + SUPERSLAB_SIZE sb * of_nat k)) = 64 + i + sb"
    by blast
  have "(2::nat) ^ (i + sb) \<le> k * 2 ^ sb"
    using i(1) by (simp add: power_add)
  moreover have "k * 2 ^ sb < (2::nat) ^ (Suc i + sb)"
    using i(2) by (simp add: power_add)
  ultimately show ?thesis
    using res x i by simp
qed

theorem redirect_code_bounds_byte_distance_witness:
  "unat (0x1000000 :: address_t) + 2 ^ unat (next_pow2_bits 0x1000000) \<le> 2 ^ 64
   \<and> (1::nat) < 2 ^ unat (next_pow2_bits 0x1000000) div 2 ^ 21
   \<and> (\<exists>pm' x. DefaultChunkMap_set_large_size 21 (pagemap_init 0) 0x1000000 0x1000000 = Inr pm'
           \<and> unat (DefaultChunkMap_get 21 pm' (0x1000000 + SUPERSLAB_SIZE 21 * 1)) = x
           \<and> 64 + 21 \<le> x
           \<and> 2 ^ (x - 64) \<le> (1::nat) * 2 ^ 21 \<and> (1::nat) * 2 ^ 21 < 2 ^ (x + 1 - 64)
           \<and> 2 ^ (x - 64 - 21) \<le> (1::nat) \<and> (1::nat) < 2 ^ (x + 1 - 64 - 21))"
proof -
  have one: "(1::nat) \<le> 1" by simp
  from redirect_code_bounds_byte_distance [OF scenario_fit one scenario_cells, of "pagemap_init 0"]
  have "\<exists>pm' x. DefaultChunkMap_set_large_size 21 (pagemap_init 0) 0x1000000 0x1000000 = Inr pm'
           \<and> unat (DefaultChunkMap_get 21 pm' (0x1000000 + SUPERSLAB_SIZE 21 * 1)) = x
           \<and> 64 + 21 \<le> x
           \<and> 2 ^ (x - 64) \<le> (1::nat) * 2 ^ 21 \<and> (1::nat) * 2 ^ 21 < 2 ^ (x + 1 - 64)
           \<and> 2 ^ (x - 64 - 21) \<le> (1::nat) \<and> (1::nat) < 2 ^ (x + 1 - 64 - 21)"
    by simp
  with scenario_fit scenario_cells show ?thesis by blast
qed

text \<open>
  C1, as the specification states it, fails: with \<^verbatim>\<open>SUPERSLAB_BITS = 21\<close>, after
  \<^verbatim>\<open>set_large_size(0x1000000, 2^24)\<close> the cell at offset \<open>k = 1\<close> holds \<open>x = 85\<close>, and
  \<open>2^(85-64) \<le> 1\<close> is false.
\<close>

theorem redirect_code_cell_distance_counterexample:
  "\<not> isl (DefaultChunkMap_set_large_size 21 (pagemap_init 0) 0x1000000 0x1000000)
   \<and> \<not> (2 ^ (unat (DefaultChunkMap_get 21
                (projr (DefaultChunkMap_set_large_size 21 (pagemap_init 0) 0x1000000 0x1000000))
                (0x1000000 + SUPERSLAB_SIZE 21 * 1)) - 64) \<le> (1::nat))"
proof -
  from scenario_offset_1 obtain pm' where
    res: "DefaultChunkMap_set_large_size 21 (pagemap_init 0) 0x1000000 0x1000000 = Inr pm'"
    and x: "unat (DefaultChunkMap_get 21 pm' (0x1000000 + SUPERSLAB_SIZE 21 * 1)) = 85"
    by blast
  show ?thesis
    by (simp only: res sum.disc sum.sel x) simp
qed

text \<open>
  C2: let \<open>b\<close> be \<^verbatim>\<open>next_pow2_bits(S)\<close> with \<open>SUPERSLAB_BITS \<le> b\<close>, and let the rounded
  region lie in the address space. Then \<^verbatim>\<open>set_large_size(p, S)\<close> returns; the cell at
  \<open>p\<close> holds \<open>b\<close>; for each \<open>i < b - SUPERSLAB_BITS\<close> the run of the \<open>2^i\<close> cells at offsets
  \<open>2^i, ..., 2^(i+1) - 1\<close> granules holds \<open>64 + i + SUPERSLAB_BITS\<close>; the loop leaves after
  \<open>b - SUPERSLAB_BITS\<close> iterations with the cursor \<open>2^(b - SUPERSLAB_BITS)\<close> granules after
  \<open>p\<close>; no cell outside the allocation changes. The instance that follows is the scenario with
  \<^verbatim>\<open>SUPERSLAB_BITS = 21\<close> and \<open>S = 2^24\<close>: head 24, offset 1 code 85, offsets 2-3 code 86,
  offsets 4-7 code 87, eight cells in all.
\<close>

theorem set_large_size_redirect_slide:
  assumes "sb \<le> unat (next_pow2_bits S)"
    and "unat p + 2 ^ unat (next_pow2_bits S) \<le> 2 ^ 64"
  shows "\<exists>pm'. DefaultChunkMap_set_large_size_loop sb pm p S
            = Inr (pm', p + SUPERSLAB_SIZE sb * of_nat (2 ^ (unat (next_pow2_bits S) - sb)),
                   unat (next_pow2_bits S) - sb)
          \<and> DefaultChunkMap_set_large_size sb pm p S = Inr pm'
          \<and> DefaultChunkMap_get sb pm' p = ucast (next_pow2_bits S)
          \<and> (\<forall>i k. i < unat (next_pow2_bits S) - sb \<and> 2 ^ i \<le> k \<and> k < 2 ^ Suc i
                \<longrightarrow> DefaultChunkMap_get sb pm' (p + SUPERSLAB_SIZE sb * of_nat k)
                      = of_nat (64 + i + sb))
          \<and> (\<forall>j. j < pagemap_index sb p \<or>
                   pagemap_index sb p + 2 ^ (unat (next_pow2_bits S) - sb) \<le> j
                \<longrightarrow> pm' j = pm j)"
proof -
  let ?b = "unat (next_pow2_bits S)"
  from set_large_size_loop_result [OF assms, of pm] obtain pm' where
    loop: "DefaultChunkMap_set_large_size_loop sb pm p S
       = Inr (pm', p + SUPERSLAB_SIZE sb * of_nat (2 ^ (?b - sb)), ?b - sb)"
    and hd: "pm' (pagemap_index sb p) = of_nat ?b"
    and inner: "\<And>i k. i < ?b - sb \<Longrightarrow> 2 ^ i \<le> k \<Longrightarrow> k < 2 ^ Suc i
                  \<Longrightarrow> pm' (pagemap_index sb p + k) = DefaultChunkMap_redirect_code sb i"
    and rest: "\<forall>j. j < pagemap_index sb p \<or> pagemap_index sb p + 2 ^ (?b - sb) \<le> j
                  \<longrightarrow> pm' j = pm j"
    by blast
  from loop have res: "DefaultChunkMap_set_large_size sb pm p S = Inr pm'"
    by (simp add: DefaultChunkMap_set_large_size_def)
  have head: "DefaultChunkMap_get sb pm' p = ucast (next_pow2_bits S)"
    using hd by (simp add: DefaultChunkMap_get_def pagemap_get_def)
  have body: "DefaultChunkMap_get sb pm' (p + SUPERSLAB_SIZE sb * of_nat k) = of_nat (64 + i + sb)"
    if "i < ?b - sb" "2 ^ i \<le> k" "k < 2 ^ Suc i" for i k
  proof -
    from run_in_region [OF assms(1) that(1,3)] assms(2)
    have "unat p + 2 ^ sb * k < 2 ^ 64" by simp
    then show ?thesis
      by (simp only: cell_address inner [OF that] DefaultChunkMap_redirect_code_def)
  qed
  from loop res head body rest show ?thesis by blast
qed

theorem set_large_size_redirect_slide_witness:
  "21 \<le> unat (next_pow2_bits 0x1000000)
   \<and> unat (0x1000000 :: address_t) + 2 ^ unat (next_pow2_bits 0x1000000) \<le> 2 ^ 64
   \<and> (\<exists>pm'. DefaultChunkMap_set_large_size_loop 21 (pagemap_init 0) 0x1000000 0x1000000
             = Inr (pm', 0x1000000 + SUPERSLAB_SIZE 21 * 8, 3)
          \<and> DefaultChunkMap_set_large_size 21 (pagemap_init 0) 0x1000000 0x1000000 = Inr pm'
          \<and> DefaultChunkMap_get 21 pm' 0x1000000 = 24
          \<and> DefaultChunkMap_get 21 pm' (0x1000000 + SUPERSLAB_SIZE 21 * 1) = 85
          \<and> DefaultChunkMap_get 21 pm' (0x1000000 + SUPERSLAB_SIZE 21 * 2) = 86
          \<and> DefaultChunkMap_get 21 pm' (0x1000000 + SUPERSLAB_SIZE 21 * 3) = 86
          \<and> DefaultChunkMap_get 21 pm' (0x1000000 + SUPERSLAB_SIZE 21 * 4) = 87
          \<and> DefaultChunkMap_get 21 pm' (0x1000000 + SUPERSLAB_SIZE 21 * 5) = 87
          \<and> DefaultChunkMap_get 21 pm' (0x1000000 + SUPERSLAB_SIZE 21 * 6) = 87
          \<and> DefaultChunkMap_get 21 pm' (0x1000000 + SUPERSLAB_SIZE 21 * 7) = 87
          \<and> pm' 7 = pagemap_init 0 7
          \<and> pm' 16 = pagemap_init 0 16)"
proof -
  have sb: "21 \<le> unat (next_pow2_bits 0x1000000)" by (simp add: scenario_bits)
  from set_large_size_redirect_slide [OF sb scenario_fit, of "pagemap_init 0"] obtain pm' where
    loop: "DefaultChunkMap_set_large_size_loop 21 (pagemap_init 0) 0x1000000 0x1000000
             = Inr (pm', 0x1000000 + SUPERSLAB_SIZE 21 * 8, 3)"
    and res: "DefaultChunkMap_set_large_size 21 (pagemap_init 0) 0x1000000 0x1000000 = Inr pm'"
    and head: "DefaultChunkMap_get 21 pm' 0x1000000 = 24"
    and body: "\<And>i k. i < 3 \<Longrightarrow> 2 ^ i \<le> k \<Longrightarrow> k < 2 ^ Suc i
                \<Longrightarrow> DefaultChunkMap_get 21 pm' (0x1000000 + SUPERSLAB_SIZE 21 * of_nat k)
                      = of_nat (64 + i + 21)"
    and rest: "\<And>j. j < 8 \<or> 16 \<le> j \<Longrightarrow> pm' j = pagemap_init 0 j"
    by (auto simp: scenario_bits scenario_index_head scenario_head_code)
  have c1: "DefaultChunkMap_get 21 pm' (0x1000000 + SUPERSLAB_SIZE 21 * 1) = 85"
    using body [of 0 1] by simp
  have c2: "DefaultChunkMap_get 21 pm' (0x1000000 + SUPERSLAB_SIZE 21 * 2) = 86"
    using body [of 1 2] by simp
  have c3: "DefaultChunkMap_get 21 pm' (0x1000000 + SUPERSLAB_SIZE 21 * 3) = 86"
    using body [of 1 3] by simp
  have c4: "DefaultChunkMap_get 21 pm' (0x1000000 + SUPERSLAB_SIZE 21 * 4) = 87"
    using body [of 2 4] by simp
  have c5: "DefaultChunkMap_get 21 pm' (0x1000000 + SUPERSLAB_SIZE 21 * 5) = 87"
    using body [of 2 5] by simp
  have c6: "DefaultChunkMap_get 21 pm' (0x1000000 + SUPERSLAB_SIZE 21 * 6) = 87"
    using body [of 2 6] by simp
  have c7: "DefaultChunkMap_get 21 pm' (0x1000000 + SUPERSLAB_SIZE 21 * 7) = 87"
    using body [of 2 7] by simp
  from rest [of 7] rest [of 16] have r: "pm' 7 = pagemap_init 0 7" "pm' 16 = pagemap_init 0 16"
    by simp_all
  from sb scenario_fit loop res head c1 c2 c3 c4 c5 c6 c7 r show ?thesis by blast
qed

text \<open>
  C3: for every size \<open>S\<close> with \<open>granule \<le> S \<le> 2^63\<close> and every address \<open>p\<close> whose rounded
  region \<open>[p, p + next_pow2(S))\<close> lies in the address space, \<^verbatim>\<open>set_large_size(p, S)\<close>
  followed by \<^verbatim>\<open>clear_large_size(p, S)\<close> succeeds; the clear resets
  \<open>count = next_pow2(S) >> SUPERSLAB_BITS\<close> consecutive cells starting at the cell of \<open>p\<close> to
  \<^verbatim>\<open>CMNotOurs\<close>. These are the cells that the registration wrote: the head holds
  \<open>log2(next_pow2(S))\<close> and every other one a redirect code, and outside of them neither
  operation changes a cell.
\<close>

theorem register_unregister_large_roundtrip:
  assumes "2 ^ sb \<le> unat S" and "unat S \<le> 2 ^ 63"
    and "unat p + 2 ^ unat (next_pow2_bits S) \<le> 2 ^ 64"
  shows "\<exists>pm1 pm2. DefaultChunkMap_set_large_size sb pm p S = Inr pm1
     \<and> DefaultChunkMap_clear_large_size sb pm1 p S = Inr pm2
     \<and> unat (drop_bit sb (next_pow2 S)) = 2 ^ unat (next_pow2_bits S) div 2 ^ sb
     \<and> (\<forall>j. pagemap_index sb p \<le> j
              \<and> j < pagemap_index sb p + unat (drop_bit sb (next_pow2 S))
           \<longrightarrow> pm2 j = of_nat (kind_value CMNotOurs)
               \<and> (if j = pagemap_index sb p then unat (pm1 j) = unat (next_pow2_bits S)
                   else unat (pm1 j) \<in> redirect_codes))
     \<and> (\<forall>j. \<not> (pagemap_index sb p \<le> j
                 \<and> j < pagemap_index sb p + unat (drop_bit sb (next_pow2 S)))
           \<longrightarrow> pm1 j = pm j \<and> pm2 j = pm j)"
proof -
  let ?b = "unat (next_pow2_bits S)"
  let ?m = "pagemap_index sb p"
  note sb = bits_of_large_size(1) [OF assms(1,2)]
  note b64 = bits_of_large_size(2) [OF assms(1,2)]
  note count = clear_count [OF sb b64]
  have count': "unat (drop_bit sb (next_pow2 S)) = 2 ^ ?b div 2 ^ sb"
    using sb by (simp add: count power_diff)
  from set_large_size_result [OF sb assms(3), of pm] obtain pm1 where
    res1: "DefaultChunkMap_set_large_size sb pm p S = Inr pm1"
    and hd: "pm1 ?m = of_nat ?b"
    and inner: "\<And>i k. i < ?b - sb \<Longrightarrow> 2 ^ i \<le> k \<Longrightarrow> k < 2 ^ Suc i
                  \<Longrightarrow> pm1 (?m + k) = DefaultChunkMap_redirect_code sb i"
    and rest: "\<And>j. j < ?m \<or> ?m + 2 ^ (?b - sb) \<le> j \<Longrightarrow> pm1 j = pm j"
    by blast
  have "DefaultChunkMap_get sb pm1 p = ucast (next_pow2_bits S)"
    using hd by (simp add: DefaultChunkMap_get_def pagemap_get_def)
  then have "(ucast (DefaultChunkMap_get sb pm1 p) :: size_t) = next_pow2_bits S"
    by (simp only: head_code_readback)
  from clear_large_size_result [OF this sb b64] obtain pm2 where
    res2: "DefaultChunkMap_clear_large_size sb pm1 p S = Inr pm2"
    and cleared: "\<And>j. pm2 j = (if ?m \<le> j \<and> j < ?m + 2 ^ (?b - sb)
                                then of_nat (kind_value CMNotOurs) else pm1 j)"
    by blast
  have inside: "pm2 j = of_nat (kind_value CMNotOurs)
               \<and> (if j = ?m then unat (pm1 j) = ?b else unat (pm1 j) \<in> redirect_codes)"
    if "?m \<le> j \<and> j < ?m + 2 ^ (?b - sb)" for j
  proof -
    from that have c: "pm2 j = of_nat (kind_value CMNotOurs)"
      by (simp add: cleared)
    show ?thesis
    proof (cases "j = ?m")
      case True
      with c hd show ?thesis by (simp only: unat_head_code if_True simp_thms)
    next
      case False
      define k where "k = j - ?m"
      with that False have k: "1 \<le> k" "k < 2 ^ (?b - sb)" and j: "j = ?m + k"
        by linarith+
      from ex_power_ivl1 [of 2 k] k(1) obtain i where i: "2 ^ i \<le> k" "k < 2 ^ Suc i"
        by auto
      from i(1) k(2) have "(2::nat) ^ i < 2 ^ (?b - sb)" by (rule le_less_trans)
      then have ilt: "i < ?b - sb" by simp
      with b64 have i64: "i + sb < 64" by simp
      have "unat (pm1 j) = 64 + i + sb"
        by (simp only: j inner [OF ilt i] unat_redirect_code [OF i64])
      with i64 have "unat (pm1 j) \<in> redirect_codes"
        by (simp add: redirect_codes_def)
      with c False show ?thesis by simp
    qed
  qed
  have outside: "pm1 j = pm j \<and> pm2 j = pm j"
    if "\<not> (?m \<le> j \<and> j < ?m + 2 ^ (?b - sb))" for j
  proof -
    from that have "j < ?m \<or> ?m + 2 ^ (?b - sb) \<le> j" by auto
    then have "pm1 j = pm j" by (rule rest)
    moreover from that have "pm2 j = pm1 j" by (auto simp: cleared)
    ultimately show ?thesis by simp
  qed
  from res1 res2 count' inside outside show ?thesis
    unfolding count by blast
qed

theorem register_unregister_large_roundtrip_witness:
  "2 ^ 21 \<le> unat (0x1000000 :: size_t) \<and> unat (0x1000000 :: size_t) \<le> 2 ^ 63
   \<and> unat (0x1000000 :: address_t) + 2 ^ unat (next_pow2_bits 0x1000000) \<le> 2 ^ 64
   \<and> (\<exists>pm1 pm2. DefaultChunkMap_set_large_size 21 (pagemap_init 0) 0x1000000 0x1000000 = Inr pm1
         \<and> DefaultChunkMap_clear_large_size 21 pm1 0x1000000 0x1000000 = Inr pm2
         \<and> unat (drop_bit 21 (next_pow2 0x1000000)) = 8
         \<and> unat (pm1 8) = 24 \<and> pm2 8 = 0
         \<and> unat (pm1 15) \<in> redirect_codes \<and> pm2 15 = 0
         \<and> pm1 16 = pagemap_init 0 16 \<and> pm2 16 = pagemap_init 0 16)"
proof -
  have h1: "2 ^ 21 \<le> unat (0x1000000 :: size_t)" by simp
  have h2: "unat (0x1000000 :: size_t) \<le> 2 ^ 63" by simp
  from register_unregister_large_roundtrip [OF h1 h2 scenario_fit, of "pagemap_init 0"]
  obtain pm1 pm2 where
    res: "DefaultChunkMap_set_large_size 21 (pagemap_init 0) 0x1000000 0x1000000 = Inr pm1"
      "DefaultChunkMap_clear_large_size 21 pm1 0x1000000 0x1000000 = Inr pm2"
    and count: "unat (drop_bit 21 (next_pow2 0x1000000)) = 8"
    and inside: "\<And>j. 8 \<le> j \<and> j < 16 \<Longrightarrow>
        pm2 j = 0 \<and> (if j = 8 then unat (pm1 j) = 24 else unat (pm1 j) \<in> redirect_codes)"
    and outside: "\<And>j. \<not> (8 \<le> j \<and> j < 16) \<Longrightarrow> pm1 j = pagemap_init 0 j \<and> pm2 j = pagemap_init 0 j"
    by (auto simp: scenario_bits scenario_index_head)
  from inside [of 8] inside [of 15] outside [of 16]
  have "unat (pm1 8) = 24 \<and> pm2 8 = 0 \<and> unat (pm1 15) \<in> redirect_codes \<and> pm2 15 = 0
         \<and> pm1 16 = pagemap_init 0 16 \<and> pm2 16 = pagemap_init 0 16"
    by simp
  with h1 h2 scenario_fit res count show ?thesis by blast
qed

text \<open>
  C6: \<^verbatim>\<open>clear_slab\<close> fails its assertion exactly when the cell does not hold the expected
  kind (\<^verbatim>\<open>CMSuperslab\<close> for a superslab, \<^verbatim>\<open>CMMediumslab\<close> for a medium slab), and
  \<^verbatim>\<open>clear_large_size\<close> exactly when the head cell does not hold \<^verbatim>\<open>next_pow2_bits(size)\<close>.
  When the matching registration came before and the cell still reads what the
  registration left there, the assertion holds and the call succeeds.
\<close>

theorem unregister_assertions_hold:
  "(DefaultChunkMap_clear_slab_Superslab sb pm a = Inl AssertionFailed
      \<longleftrightarrow> unat (DefaultChunkMap_get sb pm a) \<noteq> kind_value CMSuperslab)
   \<and> (DefaultChunkMap_clear_slab_Mediumslab sb pm a = Inl AssertionFailed
      \<longleftrightarrow> unat (DefaultChunkMap_get sb pm a) \<noteq> kind_value CMMediumslab)
   \<and> (DefaultChunkMap_clear_large_size sb pm p S = Inl AssertionFailed
      \<longleftrightarrow> (ucast (DefaultChunkMap_get sb pm p) :: size_t) \<noteq> next_pow2_bits S)
   \<and> (\<forall>pm'. DefaultChunkMap_get sb pm' a
               = DefaultChunkMap_get sb (DefaultChunkMap_set_slab_Superslab sb pm a) a
          \<longrightarrow> (\<exists>pm''. DefaultChunkMap_clear_slab_Superslab sb pm' a = Inr pm''))
   \<and> (\<forall>pm'. DefaultChunkMap_get sb pm' a
               = DefaultChunkMap_get sb (DefaultChunkMap_set_slab_Mediumslab sb pm a) a
          \<longrightarrow> (\<exists>pm''. DefaultChunkMap_clear_slab_Mediumslab sb pm' a = Inr pm''))
   \<and> (sb \<le> unat (next_pow2_bits S) \<and> unat p + 2 ^ unat (next_pow2_bits S) \<le> 2 ^ 64
        \<longrightarrow> (\<exists>pm1. DefaultChunkMap_set_large_size sb pm p S = Inr pm1
              \<and> (\<forall>pm'. DefaultChunkMap_get sb pm' p = DefaultChunkMap_get sb pm1 p
                    \<longrightarrow> (\<exists>pm''. DefaultChunkMap_clear_large_size sb pm' p S = Inr pm''))))"
  using clear_slab_Superslab_assertion [of sb pm a] clear_slab_Mediumslab_assertion [of sb pm a]
    clear_large_size_assertion [of sb pm p S]
    clear_slab_Superslab_after_set [of sb _ a pm] clear_slab_Mediumslab_after_set [of sb _ a pm]
    clear_large_size_after_set [of sb S p pm]
  by blast

theorem unregister_assertions_hold_witness:
  "21 \<le> unat (next_pow2_bits 0x1000000)
   \<and> unat (0x1000000 :: address_t) + 2 ^ unat (next_pow2_bits 0x1000000) \<le> 2 ^ 64
   \<and> (\<exists>pm''. DefaultChunkMap_clear_slab_Superslab 21
               (DefaultChunkMap_set_slab_Superslab 21 (pagemap_init 0) 0x1000000) 0x1000000
             = Inr pm'')
   \<and> (\<exists>pm''. DefaultChunkMap_clear_slab_Mediumslab 21
               (DefaultChunkMap_set_slab_Mediumslab 21 (pagemap_init 0) 0x1000000) 0x1000000
             = Inr pm'')
   \<and> DefaultChunkMap_clear_slab_Superslab 21 (pagemap_init 0) 0x1000000 = Inl AssertionFailed
   \<and> (\<exists>pm1 pm''. DefaultChunkMap_set_large_size 21 (pagemap_init 0) 0x1000000 0x1000000 = Inr pm1
         \<and> DefaultChunkMap_clear_large_size 21 pm1 0x1000000 0x1000000 = Inr pm'')"
proof -
  have sb: "21 \<le> unat (next_pow2_bits 0x1000000)" by (simp add: scenario_bits)
  note t = unregister_assertions_hold [of 21 "pagemap_init 0" "0x1000000" "0x1000000" "0x1000000"]
  from t have a: "\<exists>pm''. DefaultChunkMap_clear_slab_Superslab 21
               (DefaultChunkMap_set_slab_Superslab 21 (pagemap_init 0) 0x1000000) 0x1000000
             = Inr pm''"
    by blast
  from t have b: "\<exists>pm''. DefaultChunkMap_clear_slab_Mediumslab 21
               (DefaultChunkMap_set_slab_Mediumslab 21 (pagemap_init 0) 0x1000000) 0x1000000
             = Inr pm''"
    by blast
  from t have "DefaultChunkMap_clear_slab_Superslab 21 (pagemap_init 0) 0x1000000 = Inl AssertionFailed
      \<longleftrightarrow> unat (DefaultChunkMap_get 21 (pagemap_init 0) 0x1000000) \<noteq> kind_value CMSuperslab"
    by blast
  then have c: "DefaultChunkMap_clear_slab_Superslab 21 (pagemap_init 0) 0x1000000 = Inl AssertionFailed"
    by (simp add: DefaultChunkMap_get_def pagemap_get_def pagemap_init_def)
  from t sb scenario_fit
  have d: "\<exists>pm1 pm''. DefaultChunkMap_set_large_size 21 (pagemap_init 0) 0x1000000 0x1000000 = Inr pm1
         \<and> DefaultChunkMap_clear_large_size 21 pm1 0x1000000 0x1000000 = Inr pm''"
    by blast
  from sb scenario_fit a b c d show ?thesis by blast
qed

text \<open>
  C8: for every size \<open>S\<close> with \<open>SUPERSLAB_SIZE \<le> next_pow2(S) < 2^64\<close>, the loop of
  \<^verbatim>\<open>set_large_size\<close> leaves normally after exactly
  \<open>next_pow2_bits(S) - SUPERSLAB_BITS\<close> iterations, in \<^verbatim>\<open>DefaultChunkMap\<close> and in
  \<^verbatim>\<open>PalChunkMap\<close>, and that number is at most \<open>64 - SUPERSLAB_BITS\<close>. The other
  operations of the chunk map are the definitions above without recursion.
\<close>

theorem redirect_slide_iterations:
  assumes "2 ^ sb \<le> (2::nat) ^ unat (next_pow2_bits S)"
    and "(2::nat) ^ unat (next_pow2_bits S) < 2 ^ 64"
  shows "(\<exists>pm' ss'. DefaultChunkMap_set_large_size_loop sb pm p S
            = Inr (pm', ss', unat (next_pow2_bits S) - sb))
       \<and> (\<exists>pm' ss'. PalChunkMap_set_large_size_loop sb cpm vp S
            = Inr (pm', ss', unat (next_pow2_bits S) - sb))
       \<and> unat (next_pow2_bits S) - sb \<le> 64 - sb"
proof -
  let ?n = "unat (next_pow2_bits S) - sb"
  from assms(1) have sb: "sb \<le> unat (next_pow2_bits S)" by simp
  from assms(2) have b64: "unat (next_pow2_bits S) < 64"
    by (rule power_less_imp_less_exp [rotated]) simp
  then have n64: "?n \<le> 64" by simp
  have zero: "0 \<le> ?n" by simp
  have "\<exists>pm' ss'. DefaultChunkMap_set_large_size_loop sb pm p S = Inr (pm', ss', ?n)"
    unfolding DefaultChunkMap_set_large_size_loop_def Let_def slide_bound [OF sb]
    by (rule redirect_slide_count [OF n64 zero])
  moreover have "\<exists>pm' ss'. PalChunkMap_set_large_size_loop sb cpm vp S = Inr (pm', ss', ?n)"
    unfolding PalChunkMap_set_large_size_loop_def Let_def slide_bound [OF sb]
    by (rule redirect_slide_count [OF n64 zero])
  moreover from b64 have "?n \<le> 64 - sb" by simp
  ultimately show ?thesis by blast
qed

theorem redirect_slide_iterations_witness:
  "2 ^ 21 \<le> (2::nat) ^ unat (next_pow2_bits 0x1000000)
   \<and> (2::nat) ^ unat (next_pow2_bits 0x1000000) < 2 ^ 64
   \<and> (\<exists>pm' ss'. DefaultChunkMap_set_large_size_loop 21 (pagemap_init 0) 0x1000000 0x1000000
         = Inr (pm', ss', 3))
   \<and> (\<exists>pm' ss'. PalChunkMap_set_large_size_loop 21 (pagemap_init NULL)
          \<lparr>cap_base = 0x1000000, cap_length = 0x1000000, cap_cursor = 0x1000000\<rparr> 0x1000000
         = Inr (pm', ss', 3))"
proof -
  have h1: "2 ^ 21 \<le> (2::nat) ^ unat (next_pow2_bits 0x1000000)"
    by (simp add: scenario_bits)
  have h2: "(2::nat) ^ unat (next_pow2_bits 0x1000000) < 2 ^ 64"
    by (simp only: scenario_bits) simp
  from redirect_slide_iterations [OF h1 h2, of "pagemap_init 0" "0x1000000" "pagemap_init NULL"
      "\<lparr>cap_base = 0x1000000, cap_length = 0x1000000, cap_cursor = 0x1000000\<rparr>"]
  have "(\<exists>pm' ss'. DefaultChunkMap_set_large_size_loop 21 (pagemap_init 0) 0x1000000 0x1000000
         = Inr (pm', ss', 3))
   \<and> (\<exists>pm' ss'. PalChunkMap_set_large_size_loop 21 (pagemap_init NULL)
          \<lparr>cap_base = 0x1000000, cap_length = 0x1000000, cap_cursor = 0x1000000\<rparr> 0x1000000
         = Inr (pm', ss', 3))"
    by (simp add: scenario_bits)
  with h1 h2 show ?thesis by blast
qed

text \<open>
  C5: in the capability realization, \<^verbatim>\<open>getp<false>(p)\<close> is the capability stored in the
  cell that covers \<open>p\<close> with its address aligned down to \<^verbatim>\<open>0x100\<close> (the low 8 bits are
  zero), and \<^verbatim>\<open>getp<true>(p)\<close> is that capability with the address of \<open>p\<close>. For a pointer
  \<open>p\<close> into a registered region, where \<open>base\<close> is granule-aligned and the granule is at
  least \<^verbatim>\<open>0x100\<close> bytes: after \<^verbatim>\<open>set_slab(base)\<close>, for \<open>p\<close> in the cell of \<open>base\<close>, and after
  \<^verbatim>\<open>set_large_size(base, S)\<close>, for \<open>p\<close> in any cell of the allocation, \<^verbatim>\<open>getp<false>(p)\<close>
  is \<open>base\<close> itself and \<^verbatim>\<open>getp<true>(p)\<close> is \<open>base\<close> moved to the address of \<open>p\<close>.
\<close>

theorem PalChunkMap_getp_rederives:
  "PalChunkMap_getp False sb pm p
       = pointer_align_down PAGEMAP_PTR_ALIGN (pagemap_get sb pm (address_cast p))
   \<and> take_bit 8 (address_cast (PalChunkMap_getp False sb pm p)) = 0
   \<and> PalChunkMap_getp True sb pm p
       = (PalChunkMap_getp False sb pm p)\<lparr>cap_cursor := address_cast p\<rparr>
   \<and> (8 \<le> sb \<and> pointer_align_down (SUPERSLAB_SIZE sb) base = base
        \<and> pagemap_index sb (address_cast p) = pagemap_index sb (address_cast base)
      \<longrightarrow> (\<exists>pm'. PalChunkMap_set_slab_Superslab sb pm base = Inr pm'
              \<and> PalChunkMap_getp False sb pm' p = base
              \<and> PalChunkMap_getp True sb pm' p = base\<lparr>cap_cursor := address_cast p\<rparr>)
        \<and> (\<exists>pm'. PalChunkMap_set_slab_Mediumslab sb pm base = Inr pm'
              \<and> PalChunkMap_getp False sb pm' p = base
              \<and> PalChunkMap_getp True sb pm' p = base\<lparr>cap_cursor := address_cast p\<rparr>))
   \<and> (8 \<le> sb \<and> pointer_align_down (SUPERSLAB_SIZE sb) base = base
        \<and> sb \<le> unat (next_pow2_bits S)
        \<and> unat (address_cast base) + 2 ^ unat (next_pow2_bits S) \<le> 2 ^ 64
        \<and> pagemap_index sb (address_cast p) = pagemap_index sb (address_cast base) + k
        \<and> k < 2 ^ (unat (next_pow2_bits S) - sb)
      \<longrightarrow> (\<exists>pm'. PalChunkMap_set_large_size sb pm base S = Inr pm'
              \<and> PalChunkMap_getp False sb pm' p = base
              \<and> PalChunkMap_getp True sb pm' p = base\<lparr>cap_cursor := address_cast p\<rparr>))"
  using getp_masked [of sb pm p] getp_low_bits [of sb pm p]
    getp_after_set_slab_Superslab [of sb base p pm]
    getp_after_set_slab_Mediumslab [of sb base p pm]
    getp_after_set_large_size [of sb base S p k pm]
  by (auto simp: getp_offset)

theorem PalChunkMap_getp_rederives_witness:
  "(\<exists>pm'. PalChunkMap_set_slab_Superslab 21 (pagemap_init NULL)
            \<lparr>cap_base = 0x1000000, cap_length = 0x1000000, cap_cursor = 0x1000000\<rparr> = Inr pm'
      \<and> PalChunkMap_getp False 21 pm'
            \<lparr>cap_base = 0x1000010, cap_length = 16, cap_cursor = 0x1000010\<rparr>
          = \<lparr>cap_base = 0x1000000, cap_length = 0x1000000, cap_cursor = 0x1000000\<rparr>
      \<and> PalChunkMap_getp True 21 pm'
            \<lparr>cap_base = 0x1000010, cap_length = 16, cap_cursor = 0x1000010\<rparr>
          = \<lparr>cap_base = 0x1000000, cap_length = 0x1000000, cap_cursor = 0x1000010\<rparr>)
   \<and> (\<exists>pm'. PalChunkMap_set_large_size 21 (pagemap_init NULL)
            \<lparr>cap_base = 0x1000000, cap_length = 0x1000000, cap_cursor = 0x1000000\<rparr> 0x1000000
          = Inr pm'
      \<and> PalChunkMap_getp False 21 pm'
            \<lparr>cap_base = 0x1A00010, cap_length = 16, cap_cursor = 0x1A00010\<rparr>
          = \<lparr>cap_base = 0x1000000, cap_length = 0x1000000, cap_cursor = 0x1000000\<rparr>
      \<and> PalChunkMap_getp True 21 pm'
            \<lparr>cap_base = 0x1A00010, cap_length = 16, cap_cursor = 0x1A00010\<rparr>
          = \<lparr>cap_base = 0x1000000, cap_length = 0x1000000, cap_cursor = 0x1A00010\<rparr>)"
proof -
  let ?A = "\<lparr>cap_base = 0x1000000, cap_length = 0x1000000, cap_cursor = 0x1000000 :: address_t\<rparr>"
  let ?p1 = "\<lparr>cap_base = 0x1000010, cap_length = 16, cap_cursor = 0x1000010 :: address_t\<rparr>"
  let ?p2 = "\<lparr>cap_base = 0x1A00010, cap_length = 16, cap_cursor = 0x1A00010 :: address_t\<rparr>"
  have h1: "(8::nat) \<le> 21" by simp
  note h2 = scenario_pointer_aligned
  have h3: "pagemap_index 21 (address_cast ?p1) = pagemap_index 21 (address_cast ?A)"
    by (simp add: address_cast_def scenario_index_interior scenario_index_head)
  have h4: "21 \<le> unat (next_pow2_bits 0x1000000)"
    by (simp add: scenario_bits)
  have h5: "unat (address_cast ?A) + 2 ^ unat (next_pow2_bits 0x1000000) \<le> 2 ^ 64"
    by (simp add: address_cast_def scenario_bits)
  have h6: "pagemap_index 21 (address_cast ?p2) = pagemap_index 21 (address_cast ?A) + 5"
    by (simp add: address_cast_def scenario_index_body scenario_index_head)
  have h7: "(5::nat) < 2 ^ (unat (next_pow2_bits 0x1000000) - 21)"
    by (simp add: scenario_bits)
  from PalChunkMap_getp_rederives [of 21 "pagemap_init NULL" ?p1 ?A "0x1000000" 5] h1 h2 h3
  have slab: "\<exists>pm'. PalChunkMap_set_slab_Superslab 21 (pagemap_init NULL) ?A = Inr pm'
      \<and> PalChunkMap_getp False 21 pm' ?p1 = ?A
      \<and> PalChunkMap_getp True 21 pm' ?p1 = ?A\<lparr>cap_cursor := address_cast ?p1\<rparr>"
    by blast
  from PalChunkMap_getp_rederives [of 21 "pagemap_init NULL" ?p2 ?A "0x1000000" 5] h1 h2 h4 h5 h6 h7
  have large: "\<exists>pm'. PalChunkMap_set_large_size 21 (pagemap_init NULL) ?A 0x1000000 = Inr pm'
      \<and> PalChunkMap_getp False 21 pm' ?p2 = ?A
      \<and> PalChunkMap_getp True 21 pm' ?p2 = ?A\<lparr>cap_cursor := address_cast ?p2\<rparr>"
    by blast
  from slab large show ?thesis
    by (simp add: address_cast_def)
qed

text \<open>
  C10, as the code has it: let the granule be at least \<^verbatim>\<open>0x100\<close> bytes
  (\<open>SUPERSLAB_BITS \<ge> 8\<close>) and let every pointer of a sequence of \<^verbatim>\<open>set_slab\<close>,
  \<^verbatim>\<open>clear_slab\<close>, \<^verbatim>\<open>set_large_size\<close> and \<^verbatim>\<open>clear_large_size\<close> calls be granule-aligned. The
  fresh tables agree through \<^verbatim>\<open>get\<close> (the low 8 bits of the address of \<^verbatim>\<open>NULL\<close> are
  \<^verbatim>\<open>CMNotOurs\<close>), and if the sequence runs through on the plain realization from the fresh
  table, it runs through on the capability realization too, and afterwards \<^verbatim>\<open>get(p)\<close>
  returns the same code in both for every address \<open>p\<close>.
\<close>

theorem realizations_agree_through_get:
  assumes "8 \<le> sb"
    and "\<forall>x \<in> set ops. pointer_align_down (SUPERSLAB_SIZE sb) (op_pointer x) = op_pointer x"
    and "run_calls (DefaultChunkMap_call sb) (pagemap_init (of_nat (kind_value CMNotOurs))) ops = Inr d"
  shows "PalChunkMap_static_assert
     \<and> (\<forall>p. PalChunkMap_get sb (pagemap_init NULL) p
             = DefaultChunkMap_get sb (pagemap_init (of_nat (kind_value CMNotOurs))) p)
     \<and> (\<exists>c. run_calls (PalChunkMap_call sb) (pagemap_init NULL) ops = Inr c
           \<and> (\<forall>p. PalChunkMap_get sb c p = DefaultChunkMap_get sb d p))"
proof -
  have sa: "PalChunkMap_static_assert"
    by (simp add: PalChunkMap_static_assert_def NULL_def address_cast_def)
  have init: "PalChunkMap_get sb (pagemap_init NULL) p
             = DefaultChunkMap_get sb (pagemap_init (of_nat (kind_value CMNotOurs))) p" for p
    by (simp add: PalChunkMap_get_cell_code DefaultChunkMap_get_def pagemap_get_def
        pagemap_init_def cell_code_NULL)
  from assms(3) have "run_calls (DefaultChunkMap_call sb) (\<lambda>j. cell_code (pagemap_init NULL j)) ops = Inr d"
    by (simp only: pagemap_init_cell_code)
  from run_calls_agree [OF assms(1,2) this] obtain c where
    c: "run_calls (PalChunkMap_call sb) (pagemap_init NULL) ops = Inr c"
    and d: "d = (\<lambda>j. cell_code (c j))"
    by blast
  have "PalChunkMap_get sb c p = DefaultChunkMap_get sb d p" for p
    by (simp add: d PalChunkMap_get_cell_code DefaultChunkMap_get_def pagemap_get_def)
  with sa init c show ?thesis by blast
qed

theorem realizations_agree_through_get_witness:
  "(8::nat) \<le> 21
   \<and> pointer_align_down (SUPERSLAB_SIZE 21)
         \<lparr>cap_base = 0x1000000, cap_length = 0x1000000, cap_cursor = 0x1000000\<rparr>
       = \<lparr>cap_base = 0x1000000, cap_length = 0x1000000, cap_cursor = 0x1000000\<rparr>
   \<and> (\<exists>d c. run_calls (DefaultChunkMap_call 21) (pagemap_init (of_nat (kind_value CMNotOurs)))
          [Set_slab_Superslab \<lparr>cap_base = 0x1000000, cap_length = 0x1000000, cap_cursor = 0x1000000\<rparr>,
           Clear_slab_Superslab \<lparr>cap_base = 0x1000000, cap_length = 0x1000000, cap_cursor = 0x1000000\<rparr>,
           Set_large_size \<lparr>cap_base = 0x1000000, cap_length = 0x1000000, cap_cursor = 0x1000000\<rparr>
             0x1000000] = Inr d
        \<and> run_calls (PalChunkMap_call 21) (pagemap_init NULL)
          [Set_slab_Superslab \<lparr>cap_base = 0x1000000, cap_length = 0x1000000, cap_cursor = 0x1000000\<rparr>,
           Clear_slab_Superslab \<lparr>cap_base = 0x1000000, cap_length = 0x1000000, cap_cursor = 0x1000000\<rparr>,
           Set_large_size \<lparr>cap_base = 0x1000000, cap_length = 0x1000000, cap_cursor = 0x1000000\<rparr>
             0x1000000] = Inr c
        \<and> (\<forall>p. PalChunkMap_get 21 c p = DefaultChunkMap_get 21 d p))"
proof -
  let ?A = "\<lparr>cap_base = 0x1000000, cap_length = 0x1000000, cap_cursor = 0x1000000 :: address_t\<rparr>"
  let ?ops = "[Set_slab_Superslab ?A, Clear_slab_Superslab ?A, Set_large_size ?A 0x1000000]"
  have h1: "(8::nat) \<le> 21" by simp
  have h2: "\<forall>x \<in> set ?ops. pointer_align_down (SUPERSLAB_SIZE 21) (op_pointer x) = op_pointer x"
    by (simp add: scenario_pointer_aligned)
  from scenario_default_run obtain d where
    h3: "run_calls (DefaultChunkMap_call 21) (pagemap_init (of_nat (kind_value CMNotOurs))) ?ops = Inr d"
    by auto
  from realizations_agree_through_get [OF h1 h2 h3] h1 scenario_pointer_aligned h3 show ?thesis
    by blast
qed

text \<open>
  C10, as the specification states it, fails for a pointer that is not aligned: with
  \<^verbatim>\<open>SUPERSLAB_BITS = 21\<close>, after \<^verbatim>\<open>set_large_size(p, 2^24)\<close> with \<open>p\<close> at address
  \<^verbatim>\<open>0x1000001\<close>, both realizations return, the plain one classifies \<open>p\<close> as 24 and the
  capability one as 25.
\<close>

theorem realizations_disagree_counterexample:
  "\<not> isl (run_calls (DefaultChunkMap_call 21) (pagemap_init 0)
       [Set_large_size \<lparr>cap_base = 0x1000000, cap_length = 0x1000000, cap_cursor = 0x1000001\<rparr>
          0x1000000])
   \<and> \<not> isl (run_calls (PalChunkMap_call 21) (pagemap_init NULL)
       [Set_large_size \<lparr>cap_base = 0x1000000, cap_length = 0x1000000, cap_cursor = 0x1000001\<rparr>
          0x1000000])
   \<and> PalChunkMap_get 21
        (projr (run_calls (PalChunkMap_call 21) (pagemap_init NULL)
          [Set_large_size \<lparr>cap_base = 0x1000000, cap_length = 0x1000000, cap_cursor = 0x1000001\<rparr>
             0x1000000])) 0x1000001
      \<noteq> DefaultChunkMap_get 21
        (projr (run_calls (DefaultChunkMap_call 21) (pagemap_init 0)
          [Set_large_size \<lparr>cap_base = 0x1000000, cap_length = 0x1000000, cap_cursor = 0x1000001\<rparr>
             0x1000000])) 0x1000001"
proof -
  from scenario_unaligned_default obtain d where
    d: "DefaultChunkMap_set_large_size 21 (pagemap_init 0) 0x1000001 0x1000000 = Inr d"
    and dg: "DefaultChunkMap_get 21 d 0x1000001 = 24"
    by blast
  from scenario_unaligned_pal obtain c where
    c: "PalChunkMap_set_large_size 21 (pagemap_init NULL)
          \<lparr>cap_base = 0x1000000, cap_length = 0x1000000, cap_cursor = 0x1000001\<rparr> 0x1000000 = Inr c"
    and cg: "PalChunkMap_get 21 c 0x1000001 = 25"
    by blast
  show ?thesis
    by (simp add: address_cast_def d c dg cg)
qed

end
